theory Spec2Isabelle
  imports Main "HOL-Library.Word" "HOL-Library.AList"
begin

unbundle bit_operations_syntax

section \<open>Strings of the host language\<close>

text \<open>
  The client is TypeScript. Its strings are sequences of code units; this development
  works on the code units below 256, so a string is a \<^typ>\<open>string\<close> and
  \<open>charCodeAt\<close> is \<^const>\<open>of_char\<close>. In that range the white space of
  \<open>String.prototype.trim\<close> and of the regular expression class \<open>\s\<close> is the
  tab, line feed, vertical tab, form feed, carriage return, space and no-break space,
  and \<open>toLowerCase\<close> moves the capital letters A to Z and the capital letters of the
  Latin-1 block (except the multiplication sign) 32 places up.
\<close>

definition isWhiteSpace :: "char \<Rightarrow> bool" where
  "isWhiteSpace c = (of_char c \<in> {9, 10, 11, 12, 13, 32, 160 :: nat})"

definition trim :: "string \<Rightarrow> string" where
  "trim s = rev (dropWhile isWhiteSpace (rev (dropWhile isWhiteSpace s)))"

definition lowerChar :: "char \<Rightarrow> char" where
  "lowerChar c =
     (let n = of_char c :: nat
      in if (65 \<le> n \<and> n \<le> 90) \<or> (192 \<le> n \<and> n \<le> 222 \<and> n \<noteq> 215)
         then char_of (n + 32) else c)"

definition toLowerCase :: "string \<Rightarrow> string" where
  "toLowerCase s = map lowerChar s"

text \<open>\<open>s.replace(/\s+/g, " ")\<close>: every maximal run of white space becomes one space.\<close>

function collapseWs :: "string \<Rightarrow> string" where
  "collapseWs [] = []"
| "collapseWs (c # cs) =
     (if isWhiteSpace c then CHR '' '' # collapseWs (dropWhile isWhiteSpace cs)
      else c # collapseWs cs)"
  by pat_completeness auto
termination
  by (relation "measure length") (auto simp: less_Suc_eq_le length_dropWhile_le)

text \<open>
  An optional property of an object is a \<^typ>\<open>string option\<close>; \<open>None\<close> is
  \<open>undefined\<close>. \<open>a || b\<close> yields \<open>a\<close> unless it is falsy (undefined or the
  empty string). \<open>String(s || "")\<close> is then the string itself, or the empty string.
\<close>

definition js_or :: "string option \<Rightarrow> string option \<Rightarrow> string option" where
  "js_or a b = (case a of None \<Rightarrow> b | Some v \<Rightarrow> if v = [] then b else Some v)"

definition str_or_empty :: "string option \<Rightarrow> string" where
  "str_or_empty s = (case s of None \<Rightarrow> [] | Some v \<Rightarrow> v)"

definition normStr :: "string option \<Rightarrow> string" where
  "normStr s = trim (str_or_empty s)"

definition normEmail :: "string option \<Rightarrow> string" where
  "normEmail s = toLowerCase (normStr s)"

section \<open>The FNV-1a digest of \<open>fnv1a\<close>\<close>

text \<open>
  The source keeps \<open>h\<close> in a number (a double). \<open>h ^= c\<close> and \<open>h << k\<close> first
  reduce their operand to a signed 32-bit integer and yield one; \<open>h += ...\<close> adds six
  such integers as numbers, which is exact (the sum stays far below \<open>2 ^ 53\<close>), so
  \<open>h\<close> is modelled as an \<^typ>\<open>int\<close>. \<open>h >>> 0\<close> reads it as unsigned 32-bit
  and \<open>toString(16)\<close> prints lower-case hexadecimal without leading zeros.
\<close>

definition toUint32 :: "int \<Rightarrow> int" where
  "toUint32 x = uint (word_of_int x :: 32 word)"

definition js_shl :: "int \<Rightarrow> nat \<Rightarrow> int" where
  "js_shl x k = sint (push_bit k (word_of_int x :: 32 word))"

definition js_xor :: "int \<Rightarrow> int \<Rightarrow> int" where
  "js_xor a b = sint ((word_of_int a :: 32 word) XOR word_of_int b)"

fun fnv1a_loop :: "int \<Rightarrow> string \<Rightarrow> int" where
  "fnv1a_loop h [] = h"
| "fnv1a_loop h (c # cs) =
     (let h1 = js_xor h (int (of_char c));
          h2 = h1 + (js_shl h1 1 + js_shl h1 4 + js_shl h1 7 + js_shl h1 8 + js_shl h1 24)
      in fnv1a_loop h2 cs)"

definition hexDigit :: "nat \<Rightarrow> char" where
  "hexDigit d = ''0123456789abcdef'' ! d"

function toHex :: "nat \<Rightarrow> string" where
  "toHex n = (if n < 16 then [hexDigit n] else toHex (n div 16) @ [hexDigit (n mod 16)])"
  by pat_completeness auto
termination
  by (relation "measure id") auto

declare toHex.simps [simp del]

definition fnv1a :: "string \<Rightarrow> string" where
  "fnv1a str = toHex (nat (toUint32 (fnv1a_loop 2166136261 str)))"

text \<open>
  The digest as the specification words it: 32-bit FNV-1a, offset basis \<open>0x811C9DC5\<close>,
  each step an exclusive or with the code unit followed by a multiplication by the FNV
  prime \<open>16777619\<close>, all in unsigned 32-bit arithmetic.
\<close>

definition fnv1a32_spec :: "string \<Rightarrow> 32 word" where
  "fnv1a32_spec s = foldl (\<lambda>h c. (h XOR of_nat (of_char c)) * 16777619) 0x811C9DC5 s"

section \<open>The identity resolver \<open>makeEmailKey\<close>\<close>

record Recipient =
  rcp_name :: string
  rcp_email :: string

text \<open>The message context as \<open>office.ts\<close> declares it.\<close>

record OutlookMessageContext =
  subject :: "string option"
  fromEmail :: "string option"
  fromName :: "string option"
  internetMessageId :: "string option"
  conversationId :: "string option"
  itemId :: "string option"
  receivedDateTimeIso :: "string option"
  toRecipients :: "Recipient list option"
  ccRecipients :: "Recipient list option"

text \<open>
  \<open>makeEmailKey\<close> reads its argument through \<open>(ctx as any)\<close> and so also asks for
  three properties the declared type does not have: \<open>id\<close>, \<open>from\<close> and
  \<open>toEmail\<close>. \<open>AnyContext\<close> is an object that may carry them; \<open>typedContext\<close> is an
  object of the declared type seen that way, where they are undefined.
\<close>

record AnyContext = OutlookMessageContext +
  prop_id :: "string option"
  prop_from :: "string option"
  prop_toEmail :: "string option"

definition typedContext :: "OutlookMessageContext \<Rightarrow> AnyContext" where
  "typedContext c =
     OutlookMessageContext.extend c
       (AnyContext.fields None None None)"

definition makeEmailKey :: "AnyContext \<Rightarrow> string" where
  "makeEmailKey ctx =
     (let cid = normStr (conversationId ctx);
          imid = normStr (internetMessageId ctx);
          itemId' = normStr (js_or (itemId ctx) (prop_id ctx))
      in if cid \<noteq> [] \<and> imid \<noteq> [] then cid @ ''::'' @ imid
         else if cid \<noteq> [] \<and> itemId' \<noteq> [] then cid @ ''::'' @ itemId'
         else
           (let subject' = toLowerCase (collapseWs (normStr (subject ctx)));
                from' = normEmail (js_or (fromEmail ctx) (prop_from ctx));
                to' = normEmail (js_or (prop_toEmail ctx) (Some []))
            in ''nocid::h'' @ fnv1a (subject' @ ''|'' @ from' @ ''|'' @ to')))"

subsection \<open>The words of the specification\<close>








section \<open>The local stores: summaries, workspaces, generation history\<close>

text \<open>
  The three namespaces live in the browser's \<open>localStorage\<close> as serialised objects.
  An item is modelled by what \<open>getItem\<close> followed by \<open>JSON.parse\<close> makes of it:
  \<open>Absent\<close> (\<open>getItem\<close> yields null), \<open>Broken\<close> (the string does not parse, so
  \<open>JSON.parse\<close> throws) or \<open>Present\<close> with the parsed value. An object with
  string keys is an association list in insertion order. \<open>setItem\<close> throws when
  \<open>quotaExceeded\<close> holds. Every function below takes the value of \<open>Date.now()\<close> as
  \<open>now\<close>, in milliseconds; a function that reads the clock twice in one synchronous
  run gets the same value both times. Fields have the types the source declares, so
  the run-time checks \<open>typeof x.ts === "number"\<close> are always true here.
\<close>

datatype 'a item = Absent | Broken | Present 'a

record SummaryRow =
  sr_ts :: int
  sr_text :: string
  sr_conversationId :: "string option"

record AiHistoryEntry =
  he_id :: string
  he_ts :: int
  he_emailKey :: string
  he_conversationId :: string
  he_subject :: "string option"
  he_html :: "string option"
  he_text :: "string option"

datatype RecipientPreset = Reply | ReplyAll | Custom

datatype ResultView = ViewHtml | ViewText

record StoredSlot =
  ss_html :: "string option"
  ss_text :: "string option"
  ss_ts :: "int option"

record EmailWorkspace =
  ws_key :: string
  ws_ts :: int
  ws_updatedAt :: int
  ws_conversationId :: "string option"
  ws_subject :: "string option"
  ws_summary :: "string option"
  ws_tplPickId :: "string option"
  ws_composeNotes :: "string option"
  ws_replyAll :: "bool option"
  ws_rewriteText :: "string option"
  ws_recipientPreset :: "RecipientPreset option"
  ws_includeBodyEmails :: "bool option"
  ws_attachOriginalItem :: "bool option"
  ws_activeOption :: "int option"
  ws_results :: "StoredSlot list option"
  ws_htmlOut :: "string option"
  ws_textOut :: "string option"
  ws_resultView :: "ResultView option"

record LocalStorage =
  summaryV2 :: "(string \<times> SummaryRow) list item"
  workspaceV1 :: "(string \<times> EmailWorkspace) list item"
  aiHistoryV2 :: "AiHistoryEntry list item"
  aiHistoryV1 :: "AiHistoryEntry list item"
  quotaExceeded :: bool

definition AI_HISTORY_KEEP_MS :: int where
  "AI_HISTORY_KEEP_MS = 5 * 24 * 60 * 60 * 1000"

definition WORKSPACE_KEEP_MS :: int where
  "WORKSPACE_KEEP_MS = 5 * 24 * 60 * 60 * 1000"

text \<open>\<open>raw ? JSON.parse(raw) : dflt\<close> for an item that is not \<open>Broken\<close>.\<close>

definition parsed_or :: "'a \<Rightarrow> 'a item \<Rightarrow> 'a" where
  "parsed_or dflt it = (case it of Present v \<Rightarrow> v | _ \<Rightarrow> dflt)"

subsection \<open>Generation history\<close>

definition historyFresh :: "int \<Rightarrow> AiHistoryEntry \<Rightarrow> bool" where
  "historyFresh now x = (now - he_ts x \<le> AI_HISTORY_KEEP_MS)"

definition migrateEntry :: "AiHistoryEntry \<Rightarrow> AiHistoryEntry" where
  "migrateEntry x =
     (let cid = he_conversationId x;
          emailKey' = (if he_emailKey x \<noteq> [] then he_emailKey x
                       else if cid \<noteq> [] then ''cid:'' @ cid else [])
      in x\<lparr>he_conversationId := cid, he_emailKey := emailKey'\<rparr>)"

definition loadAiHistory :: "int \<Rightarrow> LocalStorage \<Rightarrow> AiHistoryEntry list \<times> LocalStorage" where
  "loadAiHistory now ls =
     (let usesV1 = (aiHistoryV2 ls = Absent \<and> aiHistoryV1 ls \<noteq> Absent);
          raw = (if aiHistoryV2 ls = Absent then aiHistoryV1 ls else aiHistoryV2 ls)
      in if raw = Broken then ([], ls)
         else
           (let arr = parsed_or [] raw;
                pruned = map migrateEntry (filter (historyFresh now) arr)
            in if quotaExceeded ls then ([], ls)
               else (pruned,
                     ls\<lparr>aiHistoryV2 := Present pruned,
                        aiHistoryV1 := (if usesV1 then Absent else aiHistoryV1 ls)\<rparr>)))"

definition saveAiHistory :: "AiHistoryEntry list \<Rightarrow> int \<Rightarrow> LocalStorage \<Rightarrow> LocalStorage" where
  "saveAiHistory entries now ls =
     (let pruned = filter (historyFresh now) entries
      in if quotaExceeded ls then ls
         else ls\<lparr>aiHistoryV2 := Present (drop (length pruned - 300) pruned)\<rparr>)"

subsection \<open>Workspaces\<close>

definition workspaceStale :: "int \<Rightarrow> EmailWorkspace \<Rightarrow> bool" where
  "workspaceStale now v = (ws_updatedAt v = 0 \<or> now - ws_updatedAt v > WORKSPACE_KEEP_MS)"

definition loadWorkspaces ::
  "int \<Rightarrow> LocalStorage \<Rightarrow> (string \<times> EmailWorkspace) list \<times> LocalStorage" where
  "loadWorkspaces now ls =
     (if workspaceV1 ls = Broken then ([], ls)
      else
        (let data = parsed_or [] (workspaceV1 ls);
             out = map (\<lambda>(k, v). (k, v\<lparr>ws_key := k\<rparr>))
                     (filter (\<lambda>(k, v). \<not> workspaceStale now v) data)
         in if length out \<noteq> length data
            then (if quotaExceeded ls then ([], ls) else (out, ls\<lparr>workspaceV1 := Present out\<rparr>))
            else (out, ls)))"

definition saveWorkspace :: "EmailWorkspace \<Rightarrow> int \<Rightarrow> LocalStorage \<Rightarrow> LocalStorage" where
  "saveWorkspace ws now ls =
     (let (all, ls1) = loadWorkspaces now ls
      in if quotaExceeded ls1 then ls1
         else ls1\<lparr>workspaceV1 := Present (AList.update (ws_key ws) ws all)\<rparr>)"

definition freshWorkspace :: "string \<Rightarrow> int \<Rightarrow> EmailWorkspace" where
  "freshWorkspace key now =
     \<lparr>ws_key = key, ws_ts = now, ws_updatedAt = now, ws_conversationId = None,
      ws_subject = None, ws_summary = None, ws_tplPickId = None, ws_composeNotes = None,
      ws_replyAll = None, ws_rewriteText = None, ws_recipientPreset = None,
      ws_includeBodyEmails = None, ws_attachOriginalItem = None, ws_activeOption = None,
      ws_results = None, ws_htmlOut = None, ws_textOut = None, ws_resultView = None\<rparr>"

definition loadWorkspace :: "string \<Rightarrow> int \<Rightarrow> LocalStorage \<Rightarrow> EmailWorkspace \<times> LocalStorage" where
  "loadWorkspace key now ls =
     (let (all, ls1) = loadWorkspaces now ls
      in (case map_of all key of Some hit \<Rightarrow> (hit, ls1) | None \<Rightarrow> (freshWorkspace key now, ls1)))"

subsection \<open>Summaries\<close>

text \<open>
  Like the other functions on the stores, \<open>loadSummary\<close> yields its result together
  with the storage it leaves behind; it calls \<open>getItem\<close> only, so that is the storage
  it found. \<open>upsertSummary\<close> writes the row, prunes, stores the
  object and then dispatches the \<open>icc-summary-updated\<close> event; the events dispatched
  so far are a list of (emailKey, conversationId) pairs. A throw anywhere in its body
  is swallowed and skips the rest.
\<close>

definition loadSummary :: "string \<Rightarrow> int \<Rightarrow> LocalStorage \<Rightarrow> string \<times> LocalStorage" where
  "loadSummary emailKey now ls =
     (if summaryV2 ls = Broken then ([], ls)
      else (case map_of (parsed_or [] (summaryV2 ls)) emailKey of
              None \<Rightarrow> ([], ls)
            | Some row \<Rightarrow> if now - sr_ts row > WORKSPACE_KEEP_MS then ([], ls)
                          else (sr_text row, ls)))"

text \<open>
  The task pane (\<open>App.tsx\<close>) has a loader of its own for the same item. It prunes
  as it reads, stores the pruned object when that differs from what it read, and
  shows the text of the row (\<open>setSummaryTxt\<close>, the first component here); a throw
  shows the empty text.
\<close>

definition appLoadSummary :: "string \<Rightarrow> int \<Rightarrow> LocalStorage \<Rightarrow> string \<times> LocalStorage" where
  "appLoadSummary emailKey now ls =
     (if summaryV2 ls = Broken then ([], ls)
      else
        (let obj = parsed_or [] (summaryV2 ls);
             pruned = filter (\<lambda>(k, v). now - sr_ts v \<le> WORKSPACE_KEEP_MS) obj;
             shown = (case map_of pruned emailKey of None \<Rightarrow> [] | Some v \<Rightarrow> sr_text v)
         in if pruned \<noteq> obj
            then (if quotaExceeded ls then ([], ls) else (shown, ls\<lparr>summaryV2 := Present pruned\<rparr>))
            else (shown, ls)))"

definition summaryStale :: "int \<Rightarrow> SummaryRow \<Rightarrow> bool" where
  "summaryStale now r = (sr_ts r = 0 \<or> now - sr_ts r > WORKSPACE_KEEP_MS)"

type_synonym summaryEvent = "string \<times> string"

definition upsertSummary ::
  "string \<Rightarrow> string \<Rightarrow> string \<Rightarrow> int \<Rightarrow> LocalStorage \<times> summaryEvent list
     \<Rightarrow> LocalStorage \<times> summaryEvent list" where
  "upsertSummary emailKey text' conversationId' now w =
     (let ls = fst w; events = snd w
      in if summaryV2 ls = Broken then w
         else
           (let m = parsed_or [] (summaryV2 ls);
                m1 = AList.update emailKey
                       \<lparr>sr_ts = now, sr_text = text', sr_conversationId = Some conversationId'\<rparr> m;
                m2 = filter (\<lambda>(k, r). \<not> summaryStale now r) m1
            in if quotaExceeded ls then w
               else (ls\<lparr>summaryV2 := Present m2\<rparr>, events @ [(emailKey, conversationId')])))"

subsection \<open>Well-formed stores and pruned namespaces\<close>

text \<open>A parsed object has each key once.\<close>

definition storageWellFormed :: "LocalStorage \<Rightarrow> bool" where
  "storageWellFormed ls =
     (distinct (map fst (parsed_or [] (summaryV2 ls)))
      \<and> distinct (map fst (parsed_or [] (workspaceV1 ls))))"

definition summariesPruned :: "int \<Rightarrow> LocalStorage \<Rightarrow> bool" where
  "summariesPruned now ls =
     list_all (\<lambda>(k, r). \<not> summaryStale now r) (parsed_or [] (summaryV2 ls))"

definition summariesUnexpired :: "int \<Rightarrow> LocalStorage \<Rightarrow> bool" where
  "summariesUnexpired now ls =
     list_all (\<lambda>(k, r). now - sr_ts r \<le> WORKSPACE_KEEP_MS) (parsed_or [] (summaryV2 ls))"

definition workspacesPruned :: "int \<Rightarrow> LocalStorage \<Rightarrow> bool" where
  "workspacesPruned now ls =
     list_all (\<lambda>(k, v). \<not> workspaceStale now v) (parsed_or [] (workspaceV1 ls))"

definition historyPruned :: "int \<Rightarrow> LocalStorage \<Rightarrow> bool" where
  "historyPruned now ls = list_all (historyFresh now) (parsed_or [] (aiHistoryV2 ls))"

section \<open>The panel state and the generation run\<close>

text \<open>
  \<open>AiPanel\<close> is a React function component. Its state that \<open>run\<close> touches is the
  record \<open>PanelState\<close>; the world around it adds the local storage, the events
  dispatched so far and \<open>currentEmailKeyRef.current\<close>, the identity of the email the
  panel shows at the moment. A call of \<open>run\<close> belongs to one render: the constants
  it mentions (\<open>emailKey\<close>, \<open>ctx\<close>, \<open>activeOption\<close>, \<open>composeNotes\<close> and so on)
  are the values of that render and stay what they were for the whole call, also after
  the \<open>await\<close>; \<open>RunClosure\<close> holds them. The state setters, in contrast, act on
  the state of the moment they run in.
\<close>

datatype Action = ActSummarize | ActReply | ActTasks | ActRewrite

record ResultSlot =
  slot_html :: string
  slot_text :: string
  slot_ts :: int

record PanelState =
  resultSlots :: "ResultSlot list"
  resultView :: ResultView
  busy :: bool
  err :: string
  notice :: string
  sheet :: string

record World =
  panel :: PanelState
  storage :: LocalStorage
  events :: "summaryEvent list"
  currentEmailKey :: string

record RunClosure =
  cl_emailKey :: string
  cl_conversationId :: "string option"
  cl_subject :: "string option"
  cl_activeOption :: nat
  cl_tplPickId :: string
  cl_composeNotes :: string
  cl_rewriteText :: string
  cl_recipientPreset :: RecipientPreset
  cl_replyAll :: bool
  cl_includeBodyEmails :: bool
  cl_attachOriginalItem :: bool

definition emptySlot :: ResultSlot where
  "emptySlot = \<lparr>slot_html = [], slot_text = [], slot_ts = 0\<rparr>"

definition makeEmptySlots :: "ResultSlot list" where
  "makeEmptySlots = replicate 3 emptySlot"

text \<open>
  \<open>next[activeOption] = v\<close> on an array shorter than the index grows the array; the
  places in between read as empty slots everywhere in the component
  (\<open>resultSlots[i]?.html || ""\<close>), and so they are empty slots here.
\<close>

definition assignSlot :: "ResultSlot list \<Rightarrow> nat \<Rightarrow> ResultSlot \<Rightarrow> ResultSlot list" where
  "assignSlot xs i v = (xs @ replicate (Suc i - length xs) emptySlot)[i := v]"

definition slotAt :: "ResultSlot list \<Rightarrow> nat \<Rightarrow> ResultSlot" where
  "slotAt xs i = (if i < length xs then xs ! i else emptySlot)"

definition setHtmlOut :: "nat \<Rightarrow> string \<Rightarrow> int \<Rightarrow> ResultSlot list \<Rightarrow> ResultSlot list" where
  "setHtmlOut activeOption v now prev =
     (let next = (if prev \<noteq> [] then prev else makeEmptySlots);
          cur = slotAt next activeOption
      in assignSlot next activeOption (cur\<lparr>slot_html := v, slot_ts := now\<rparr>))"

definition setTextOut :: "nat \<Rightarrow> string \<Rightarrow> int \<Rightarrow> ResultSlot list \<Rightarrow> ResultSlot list" where
  "setTextOut activeOption v now prev =
     (let next = (if prev \<noteq> [] then prev else makeEmptySlots);
          cur = slotAt next activeOption
      in assignSlot next activeOption (cur\<lparr>slot_text := v, slot_ts := now\<rparr>))"

text \<open>\<open>s || undefined\<close> on a string.\<close>

definition orUndefined :: "string \<Rightarrow> string option" where
  "orUndefined s = (if s = [] then None else Some s)"

text \<open>
  What the awaited \<open>aiGenerate\<close> call brings back: a rejection with its message
  (\<open>e?.message ?? String(e)\<close>), or a result, given here by the two values the source
  derives from it before it looks at anything else: \<open>safeHtml\<close> (the sanitised html)
  and \<open>plainTxt\<close> (the trimmed text, or the html stripped of its tags).
\<close>

datatype GenOutcome = Rejected string | Generated string string

definition NOTICE_SUMMARY_UPDATED :: string where
  "NOTICE_SUMMARY_UPDATED = ''Resumo atualizado.''"

definition NOTICE_SAVED_TO_PREVIOUS :: string where
  "NOTICE_SAVED_TO_PREVIOUS =
     ''O email mudou durante a gera'' @ [CHR 0xE7, CHR 0xE3]
     @ ''o; o resultado ficou guardado no email anterior.''"

text \<open>The part of \<open>run\<close> before the \<open>await\<close>.\<close>

definition run_start :: "RunClosure \<Rightarrow> Action \<Rightarrow> int \<Rightarrow> World \<Rightarrow> World" where
  "run_start cl action now w =
     (let p = panel w;
          p1 = p\<lparr>err := [], notice := [], busy := True\<rparr>;
          p2 = (if action \<noteq> ActSummarize
                then p1\<lparr>resultSlots :=
                        setTextOut (cl_activeOption cl) [] now
                          (setHtmlOut (cl_activeOption cl) [] now (resultSlots p1))\<rparr>
                else p1)
      in w\<lparr>panel := p2\<rparr>)"

text \<open>
  The part of \<open>run\<close> after the \<open>await\<close>, with the \<open>catch\<close> and the \<open>finally\<close>.
  \<open>runEmailKey\<close> was bound to \<open>emailKey\<close> before the \<open>await\<close>; the comparison
  \<open>runEmailKey !== emailKey\<close> reads the same constant of the same render again.
\<close>

definition run_finish :: "RunClosure \<Rightarrow> Action \<Rightarrow> GenOutcome \<Rightarrow> int \<Rightarrow> World \<Rightarrow> World" where
  "run_finish cl action outcome now w =
     (case outcome of
        Rejected msg \<Rightarrow> w\<lparr>panel := (panel w)\<lparr>err := msg, busy := False\<rparr>\<rparr>
      | Generated safeHtml plainTxt \<Rightarrow>
          (let runEmailKey = cl_emailKey cl;
               runConversationId = str_or_empty (cl_conversationId cl)
           in if action = ActSummarize then
                (let w1 = (if runEmailKey \<noteq> [] \<and> plainTxt \<noteq> []
                           then (let (ls, ev) = upsertSummary runEmailKey plainTxt runConversationId
                                                  now (storage w, events w)
                                 in w\<lparr>storage := ls, events := ev,
                                      panel := (panel w)\<lparr>notice := NOTICE_SUMMARY_UPDATED\<rparr>\<rparr>)
                           else w)
                 in w1\<lparr>panel := (panel w1)\<lparr>sheet := [], busy := False\<rparr>\<rparr>)
              else if runEmailKey \<noteq> cl_emailKey cl then
                (let ls = saveWorkspace
                            \<lparr>ws_key = runEmailKey, ws_ts = now, ws_updatedAt = now,
                             ws_conversationId = Some runConversationId,
                             ws_subject = cl_subject cl,
                             ws_summary = orUndefined (fst (loadSummary runEmailKey now (storage w))),
                             ws_tplPickId = orUndefined (cl_tplPickId cl),
                             ws_composeNotes = orUndefined (cl_composeNotes cl),
                             ws_replyAll = Some (cl_replyAll cl),
                             ws_rewriteText = orUndefined (cl_rewriteText cl),
                             ws_recipientPreset = Some (cl_recipientPreset cl),
                             ws_includeBodyEmails = Some (cl_includeBodyEmails cl),
                             ws_attachOriginalItem = Some (cl_attachOriginalItem cl),
                             ws_activeOption = None, ws_results = None,
                             ws_htmlOut = orUndefined safeHtml,
                             ws_textOut = orUndefined plainTxt,
                             ws_resultView = None\<rparr> now (storage w)
                 in w\<lparr>storage := ls,
                      panel := (panel w)\<lparr>notice := NOTICE_SAVED_TO_PREVIOUS, sheet := [],
                                        busy := False\<rparr>\<rparr>)
              else
                w\<lparr>panel := (panel w)
                     \<lparr>resultSlots :=
                        setTextOut (cl_activeOption cl) plainTxt now
                          (setHtmlOut (cl_activeOption cl) safeHtml now (resultSlots (panel w))),
                      resultView := (if safeHtml \<noteq> [] then ViewHtml else ViewText),
                      sheet := [], busy := False\<rparr>\<rparr>))"

text \<open>
  The effects that run when the panel comes to show another email: the reference to
  the current identity is set, and the workspace of that identity is restored into
  the three result slots (its \<open>results\<close>, or the legacy single output).
\<close>

definition restoredSlot :: "StoredSlot list \<Rightarrow> nat \<Rightarrow> ResultSlot" where
  "restoredSlot wsSlots i =
     (if i < length wsSlots
         \<and> (str_or_empty (ss_html (wsSlots ! i)) \<noteq> [] \<or> str_or_empty (ss_text (wsSlots ! i)) \<noteq> [])
      then \<lparr>slot_html = str_or_empty (ss_html (wsSlots ! i)),
            slot_text = str_or_empty (ss_text (wsSlots ! i)),
            slot_ts = (case ss_ts (wsSlots ! i) of None \<Rightarrow> 0 | Some t \<Rightarrow> t)\<rparr>
      else emptySlot)"

definition restoreSlots :: "EmailWorkspace \<Rightarrow> ResultSlot list" where
  "restoreSlots ws =
     (let wsSlots = (case ws_results ws of None \<Rightarrow> [] | Some r \<Rightarrow> r);
          slots = map (restoredSlot wsSlots) [0, 1, 2]
      in if \<not> list_ex (\<lambda>x. slot_html x \<noteq> [] \<or> slot_text x \<noteq> []) slots
         then slots[0 := \<lparr>slot_html = str_or_empty (ws_htmlOut ws),
                          slot_text = str_or_empty (ws_textOut ws),
                          slot_ts = ws_ts ws\<rparr>]
         else slots)"

definition showEmail :: "string \<Rightarrow> int \<Rightarrow> World \<Rightarrow> World" where
  "showEmail emailKey now w =
     (if emailKey = [] then w\<lparr>currentEmailKey := []\<rparr>
      else
        (let (ws, ls) = loadWorkspace emailKey now (storage w)
         in w\<lparr>storage := ls, currentEmailKey := emailKey,
              panel := (panel w)\<lparr>resultSlots := restoreSlots ws\<rparr>\<rparr>))"

subsection \<open>The effect that persists the workspace\<close>

text \<open>
  The workspace of the email on show is saved by an effect of its own. Its
  dependencies are the constants of the render that the record is made of
  (\<open>emailKey\<close>, the conversation identifier, the subject, the compose state, the
  active option) and \<open>resultSlots\<close> with the two outputs derived from it. When a
  render finds one of them changed, React first runs the cleanup of the effect run
  before, which clears the timer that run armed, and then the effect again, which
  arms a timer of 250 ms unless \<open>emailKey\<close> is empty (\<open>restoringWsRef.current\<close> is
  false whenever an effect starts: the restoring effect sets and resets it within one
  synchronous run). When the timer fires, \<open>saveWorkspace\<close> stores the record made of
  the values of the render that armed it; the clock and the summaries are read at
  that moment. \<open>saveTimer\<close> is the timer that is armed, if any, with those values.
\<close>

definition storedSlot :: "ResultSlot \<Rightarrow> StoredSlot" where
  "storedSlot s = \<lparr>ss_html = orUndefined (slot_html s), ss_text = orUndefined (slot_text s),
                   ss_ts = (if slot_ts s = 0 then None else Some (slot_ts s))\<rparr>"

definition workspaceOfRender ::
  "RunClosure \<Rightarrow> ResultSlot list \<Rightarrow> int \<Rightarrow> LocalStorage \<Rightarrow> EmailWorkspace" where
  "workspaceOfRender cl slots now ls =
     \<lparr>ws_key = cl_emailKey cl, ws_ts = now, ws_updatedAt = now,
      ws_conversationId = cl_conversationId cl,
      ws_subject = cl_subject cl,
      ws_summary = orUndefined (fst (loadSummary (cl_emailKey cl) now ls)),
      ws_tplPickId = orUndefined (cl_tplPickId cl),
      ws_composeNotes = orUndefined (cl_composeNotes cl),
      ws_replyAll = Some (cl_replyAll cl),
      ws_rewriteText = orUndefined (cl_rewriteText cl),
      ws_recipientPreset = Some (cl_recipientPreset cl),
      ws_includeBodyEmails = Some (cl_includeBodyEmails cl),
      ws_attachOriginalItem = Some (cl_attachOriginalItem cl),
      ws_activeOption = Some (int (cl_activeOption cl)),
      ws_results = Some (map storedSlot slots),
      ws_htmlOut = orUndefined (slot_html (slotAt slots (cl_activeOption cl))),
      ws_textOut = orUndefined (slot_text (slotAt slots (cl_activeOption cl))),
      ws_resultView = None\<rparr>"

type_synonym PendingSave = "(RunClosure \<times> ResultSlot list) option"

definition persistEffect :: "RunClosure \<Rightarrow> ResultSlot list \<Rightarrow> PendingSave" where
  "persistEffect cl slots = (if cl_emailKey cl = [] then None else Some (cl, slots))"

record Component =
  world :: World
  saveTimer :: PendingSave

definition saveTimerFires :: "int \<Rightarrow> Component \<Rightarrow> Component" where
  "saveTimerFires now c =
     (case saveTimer c of
        None \<Rightarrow> c
      | Some (cl, slots) \<Rightarrow>
          c\<lparr>world := (world c)
               \<lparr>storage := saveWorkspace (workspaceOfRender cl slots now (storage (world c)))
                              now (storage (world c))\<rparr>,
            saveTimer := None\<rparr>)"

text \<open>
  The start of a run, followed by the effects of the render it causes. \<open>setErr\<close>,
  \<open>setNotice\<close> and \<open>setBusy\<close> set no dependency of the effect. \<open>setHtmlOut\<close> and
  \<open>setTextOut\<close>, called for every action but summarize, each put a new array into
  \<open>resultSlots\<close>, so the effect runs again: for the render that follows, whose other
  constants are those of the render the run belongs to as long as nothing else
  happens in between. The failure of the awaited call sets \<open>err\<close> and \<open>busy\<close> only
  and leaves an armed timer as it is.
\<close>

definition runStarts :: "RunClosure \<Rightarrow> Action \<Rightarrow> int \<Rightarrow> Component \<Rightarrow> Component" where
  "runStarts cl action now c =
     (let w1 = run_start cl action now (world c)
      in c\<lparr>world := w1,
           saveTimer := (if action \<noteq> ActSummarize
                         then persistEffect cl (resultSlots (panel w1))
                         else saveTimer c)\<rparr>)"

definition runFails :: "RunClosure \<Rightarrow> Action \<Rightarrow> string \<Rightarrow> int \<Rightarrow> Component \<Rightarrow> Component" where
  "runFails cl action msg now c = c\<lparr>world := run_finish cl action (Rejected msg) now (world c)\<rparr>"

section \<open>The automatic summary\<close>

text \<open>
  The effect that summarises a newly shown email keeps, per identity, an in-flight
  flag and the time of the last attempt in \<open>autoSummaryStateRef\<close>. An effect run that
  passes its guards sets both and arms a timer of 350 ms; it hands React a cleanup
  function, which React calls before the next run of the effect (its dependencies are
  the conversation, the identity and the body texts). The timer's callback, if the
  panel still shows the identity it was armed for, awaits \<open>run("summarize")\<close>; its
  \<open>finally\<close> clears the flag. Besides the state of the source, \<open>AutoSummary\<close>
  records which awaited summarize calls have not settled yet and which attempts were
  started when.
\<close>

record AutoSummaryEntry =
  inflight :: bool
  lastAttempt :: "int option"

record AutoSummary =
  stateRef :: "string \<Rightarrow> AutoSummaryEntry option"
  armedTimer :: "string option"
  cleanupFor :: "string option"
  awaitingRun :: "string list"
  attempts :: "(string \<times> int) list"

definition entryOf :: "AutoSummary \<Rightarrow> string \<Rightarrow> AutoSummaryEntry" where
  "entryOf a key =
     (case stateRef a key of None \<Rightarrow> \<lparr>inflight = False, lastAttempt = None\<rparr> | Some e \<Rightarrow> e)"

definition setInflight :: "string \<Rightarrow> bool \<Rightarrow> AutoSummary \<Rightarrow> AutoSummary" where
  "setInflight key b a = a\<lparr>stateRef := (stateRef a)(key \<mapsto> (entryOf a key)\<lparr>inflight := b\<rparr>)\<rparr>"

text \<open>The cleanup function of an effect run that armed a timer for \<open>keyAtSchedule\<close>.\<close>

definition autoSummaryCleanup :: "AutoSummary \<Rightarrow> AutoSummary" where
  "autoSummaryCleanup a =
     (case cleanupFor a of
        None \<Rightarrow> a
      | Some keyAtSchedule \<Rightarrow>
          setInflight keyAtSchedule False (a\<lparr>armedTimer := None, cleanupFor := None\<rparr>))"

text \<open>The guards of the effect body: does this run start an attempt?\<close>

definition autoSummaryStarts ::
  "string option \<Rightarrow> string \<Rightarrow> string \<Rightarrow> string \<Rightarrow> int \<Rightarrow> LocalStorage \<Rightarrow> AutoSummary \<Rightarrow> bool" where
  "autoSummaryStarts conversationId' emailKey rawBody body' now ls a =
     (str_or_empty conversationId' \<noteq> []
      \<and> emailKey \<noteq> []
      \<and> fst (loadSummary emailKey now ls) = []
      \<and> trim (if rawBody \<noteq> [] then rawBody else body') \<noteq> []
      \<and> \<not> inflight (entryOf a emailKey)
      \<and> \<not> (case lastAttempt (entryOf a emailKey) of
               None \<Rightarrow> False
             | Some t \<Rightarrow> t \<noteq> 0 \<and> now - t < 30000))"

text \<open>One run of the effect: React calls the previous cleanup, then the body.\<close>

definition autoSummaryEffect ::
  "string option \<Rightarrow> string \<Rightarrow> string \<Rightarrow> string \<Rightarrow> int \<Rightarrow> LocalStorage \<Rightarrow> AutoSummary
     \<Rightarrow> AutoSummary" where
  "autoSummaryEffect conversationId' emailKey rawBody body' now ls a0 =
     (let a = autoSummaryCleanup a0
      in if autoSummaryStarts conversationId' emailKey rawBody body' now ls a
         then a\<lparr>stateRef := (stateRef a)(emailKey \<mapsto> \<lparr>inflight = True, lastAttempt = Some now\<rparr>),
                armedTimer := Some emailKey, cleanupFor := Some emailKey,
                attempts := attempts a @ [(emailKey, now)]\<rparr>
         else a)"

text \<open>
  The timer fires while the panel shows \<open>current\<close>: the callback either returns at
  once, and its \<open>finally\<close> clears the flag, or it starts to await the summarize run.
\<close>

definition autoSummaryTimerFires :: "string \<Rightarrow> AutoSummary \<Rightarrow> AutoSummary" where
  "autoSummaryTimerFires current a =
     (case armedTimer a of
        None \<Rightarrow> a
      | Some keyAtSchedule \<Rightarrow>
          (if current \<noteq> keyAtSchedule
           then setInflight keyAtSchedule False (a\<lparr>armedTimer := None\<rparr>)
           else a\<lparr>armedTimer := None, awaitingRun := awaitingRun a @ [keyAtSchedule]\<rparr>))"

text \<open>An awaited summarize run settles: the \<open>finally\<close> of its callback runs.\<close>

definition autoSummaryRunSettles :: "string \<Rightarrow> AutoSummary \<Rightarrow> AutoSummary" where
  "autoSummaryRunSettles keyAtSchedule a =
     (if keyAtSchedule \<in> set (awaitingRun a)
      then setInflight keyAtSchedule False (a\<lparr>awaitingRun := remove1 keyAtSchedule (awaitingRun a)\<rparr>)
      else a)"

definition autoSummaryInit :: AutoSummary where
  "autoSummaryInit = \<lparr>stateRef = (\<lambda>k. None), armedTimer = None, cleanupFor = None,
                        awaitingRun = [], attempts = []\<rparr>"

section \<open>Recipient rows\<close>

datatype RecipientRole = RoleTo | RoleCc | RoleBcc

datatype RecipientOrigin = OriginFrom | OriginTo | OriginCc | OriginBody | OriginManual

record RecipientRow =
  row_email :: string
  row_name :: "string option"
  row_origins :: "RecipientOrigin list"
  row_include :: bool
  row_role :: RecipientRole

definition normalizeEmailCandidate :: "string \<Rightarrow> string" where
  "normalizeEmailCandidate raw =
     (let s1 = trim raw;
          s2 = dropWhile (\<lambda>c. c \<in> set ''<(['') s1;
          s3 = rev (dropWhile (\<lambda>c. c \<in> set ''>)],.;:'' \<or> isWhiteSpace c) (rev s2));
          s4 = toLowerCase (trim s3)
      in if CHR ''@'' \<notin> set s4 \<or> length s4 < 5 then [] else s4)"

text \<open>
  \<open>extractEmailsFromText\<close> collects the matches of two regular expressions into
  \<open>out\<close> and then cleans them; the cleaning loop is \<open>cleanCandidates\<close>, and the
  matches are its input.
\<close>

fun cleanLoop :: "string list \<Rightarrow> string list \<Rightarrow> string list" where
  "cleanLoop seen [] = []"
| "cleanLoop seen (x # xs) =
     (let e = normalizeEmailCandidate x
      in if e = [] then cleanLoop seen xs
         else if e \<in> set seen then cleanLoop seen xs
         else e # cleanLoop (e # seen) xs)"

definition cleanCandidates :: "string list \<Rightarrow> string list" where
  "cleanCandidates out = cleanLoop [] out"

text \<open>\<open>Array.from(new Set([...a, ...b]))\<close>: the first occurrence of each origin, in order.\<close>

definition mergeOrigins :: "RecipientOrigin list \<Rightarrow> RecipientOrigin list \<Rightarrow> RecipientOrigin list" where
  "mergeOrigins a b = rev (remdups (rev (a @ b)))"

text \<open>\<open>rows.find(p)\<close> followed by an assignment to the row found.\<close>

fun updateFirst :: "('a \<Rightarrow> bool) \<Rightarrow> ('a \<Rightarrow> 'a) \<Rightarrow> 'a list \<Rightarrow> 'a list" where
  "updateFirst p f [] = []"
| "updateFirst p f (x # xs) = (if p x then f x # xs else x # updateFirst p f xs)"

definition truthy :: "string option \<Rightarrow> bool" where
  "truthy s = (str_or_empty s \<noteq> [])"

definition pushRow ::
  "string \<Rightarrow> string option \<times> string option \<times> RecipientOrigin \<Rightarrow> RecipientRow list
     \<Rightarrow> RecipientRow list" where
  "pushRow myEmailLower entry rows =
     (case entry of (email', name', origin) \<Rightarrow>
        (let e = normalizeEmailCandidate (str_or_empty email')
         in if e = [] then rows
            else if myEmailLower \<noteq> [] \<and> e = myEmailLower then rows
            else if list_ex (\<lambda>r. row_email r = e) rows
            then updateFirst (\<lambda>r. row_email r = e)
                   (\<lambda>r. r\<lparr>row_origins := mergeOrigins (row_origins r) [origin],
                          row_name := (if \<not> truthy (row_name r) \<and> truthy name'
                                       then name' else row_name r)\<rparr>) rows
            else rows @ [\<lparr>row_email = e, row_name = name', row_origins = [origin],
                           row_include = False, row_role = RoleCc\<rparr>]))"

definition recipientEntries ::
  "RecipientOrigin \<Rightarrow> Recipient list option
     \<Rightarrow> (string option \<times> string option \<times> RecipientOrigin) list" where
  "recipientEntries origin rs =
     map (\<lambda>r. (Some (rcp_email r), Some (rcp_name r), origin))
       (case rs of None \<Rightarrow> [] | Some l \<Rightarrow> l)"

definition buildHeaderRows :: "OutlookMessageContext \<Rightarrow> string \<Rightarrow> RecipientRow list" where
  "buildHeaderRows ctx myEmailLower =
     fold (pushRow myEmailLower)
       ((fromEmail ctx, fromName ctx, OriginFrom)
        # recipientEntries OriginTo (toRecipients ctx)
        @ recipientEntries OriginCc (ccRecipients ctx))
       []"

definition isHeader :: "RecipientRow \<Rightarrow> bool" where
  "isHeader r = list_ex (\<lambda>orig. orig = OriginTo \<or> orig = OriginCc) (row_origins r)"

text \<open>
  \<open>applyPreset\<close> in its three steps: the loop that resets every row, the block that
  marks (or inserts) the sender's row, and the loop of \<open>replyAll\<close> over the header
  rows.
\<close>

definition resetRow :: "RecipientRow \<Rightarrow> RecipientRow" where
  "resetRow r = r\<lparr>row_include := False, row_role := RoleCc\<rparr>"

definition senderRow :: "string \<Rightarrow> string option \<Rightarrow> RecipientRow" where
  "senderRow from' fromName' =
     \<lparr>row_email = from', row_name = fromName', row_origins = [OriginFrom],
      row_include = True, row_role = RoleTo\<rparr>"

definition markSender :: "string \<Rightarrow> string option \<Rightarrow> RecipientRow list \<Rightarrow> RecipientRow list" where
  "markSender from' fromName' rows =
     (if list_ex (\<lambda>x. row_email x = from') rows
      then updateFirst (\<lambda>x. row_email x = from')
             (\<lambda>rr. rr\<lparr>row_include := True, row_role := RoleTo\<rparr>) rows
      else senderRow from' fromName' # rows)"

definition markHeaders :: "string \<Rightarrow> string \<Rightarrow> RecipientRow list \<Rightarrow> RecipientRow list" where
  "markHeaders myEmailLower from' rows =
     map (\<lambda>r. if (myEmailLower \<noteq> [] \<and> row_email r = myEmailLower)
                  \<or> (from' \<noteq> [] \<and> row_email r = from')
               then r
               else if \<not> isHeader r then r
               else r\<lparr>row_include := True, row_role := RoleCc\<rparr>) rows"

definition applyPreset ::
  "RecipientRow list \<Rightarrow> RecipientPreset \<Rightarrow> OutlookMessageContext \<Rightarrow> string \<Rightarrow> RecipientRow list" where
  "applyPreset rows preset ctx myEmailLower =
     (let from' = normalizeEmailCandidate (str_or_empty (fromEmail ctx));
          rows1 = map resetRow rows;
          rows2 =
            (if (preset = Reply \<or> preset = ReplyAll)
                \<and> from' \<noteq> [] \<and> (myEmailLower = [] \<or> from' \<noteq> myEmailLower)
             then markSender from' (fromName ctx) rows1
             else rows1)
      in if preset = ReplyAll then markHeaders myEmailLower from' rows2 else rows2)"

text \<open>The effect that adds the addresses found in the body text as suggestions.\<close>

definition harvestOne :: "string \<Rightarrow> string \<Rightarrow> RecipientRow list \<Rightarrow> RecipientRow list" where
  "harvestOne myEmailLower email' rows =
     (if myEmailLower \<noteq> [] \<and> email' = myEmailLower then rows
      else if list_ex (\<lambda>r. row_email r = email') rows
      then updateFirst (\<lambda>r. row_email r = email')
             (\<lambda>r. r\<lparr>row_origins := mergeOrigins (row_origins r) [OriginBody]\<rparr>) rows
      else rows @ [\<lparr>row_email = email', row_name = None, row_origins = [OriginBody],
                     row_include = False, row_role = RoleCc\<rparr>])"

definition bodyScan ::
  "bool \<Rightarrow> string \<Rightarrow> string list \<Rightarrow> RecipientRow list \<Rightarrow> RecipientRow list" where
  "bodyScan includeBodyEmails myEmailLower out rows =
     (if \<not> includeBodyEmails then rows
      else (let found = cleanCandidates out
            in if found = [] then rows else fold (harvestOne myEmailLower) found rows))"

definition addManualRecipient ::
  "string \<Rightarrow> RecipientRole \<Rightarrow> RecipientRow list \<Rightarrow> RecipientRow list" where
  "addManualRecipient addEmail addRole rows =
     (let e = normalizeEmailCandidate addEmail
      in if e = [] then rows
         else if list_ex (\<lambda>r. row_email r = e) rows
         then updateFirst (\<lambda>r. row_email r = e)
                (\<lambda>r. r\<lparr>row_origins := mergeOrigins (row_origins r) [OriginManual],
                       row_include := True, row_role := addRole\<rparr>) rows
         else rows @ [\<lparr>row_email = e, row_name = None, row_origins = [OriginManual],
                        row_include = True, row_role = addRole\<rparr>])"

definition onToggleInclude :: "string \<Rightarrow> bool \<Rightarrow> RecipientRow list \<Rightarrow> RecipientRow list" where
  "onToggleInclude emailAddr checked rows =
     map (\<lambda>r. if row_email r = emailAddr then r\<lparr>row_include := checked\<rparr> else r) rows"

definition onChangeRole :: "string \<Rightarrow> RecipientRole \<Rightarrow> RecipientRow list \<Rightarrow> RecipientRow list" where
  "onChangeRole emailAddr role' rows =
     map (\<lambda>r. if row_email r = emailAddr then r\<lparr>row_role := role'\<rparr> else r) rows"

text \<open>
  The ways the row set of the shown email changes after it was built: it starts as
  the header rows with the reply preset applied, and each later step is one of the
  operations below.
\<close>

datatype RowOp =
    OpBodyScan bool "string list"
  | OpAddManual string RecipientRole
  | OpApplyPreset RecipientPreset
  | OpToggleInclude string bool
  | OpChangeRole string RecipientRole

definition initialRows :: "OutlookMessageContext \<Rightarrow> string \<Rightarrow> RecipientRow list" where
  "initialRows ctx myEmailLower = applyPreset (buildHeaderRows ctx myEmailLower) Reply ctx myEmailLower"

fun applyRowOp ::
  "OutlookMessageContext \<Rightarrow> string \<Rightarrow> RecipientRow list \<Rightarrow> RowOp \<Rightarrow> RecipientRow list" where
  "applyRowOp ctx me rows (OpBodyScan inc out) = bodyScan inc me out rows"
| "applyRowOp ctx me rows (OpAddManual addEmail addRole) = addManualRecipient addEmail addRole rows"
| "applyRowOp ctx me rows (OpApplyPreset preset) = applyPreset rows preset ctx me"
| "applyRowOp ctx me rows (OpToggleInclude emailAddr checked) = onToggleInclude emailAddr checked rows"
| "applyRowOp ctx me rows (OpChangeRole emailAddr role') = onChangeRole emailAddr role' rows"

definition normalizedAddress :: "string \<Rightarrow> bool" where
  "normalizedAddress e = (toLowerCase (trim e) = e)"

definition rowsOk :: "RecipientRow list \<Rightarrow> bool" where
  "rowsOk rows = (distinct (map row_email rows) \<and> list_all (\<lambda>r. normalizedAddress (row_email r)) rows)"

definition originsGrow :: "RecipientRow list \<Rightarrow> RecipientRow list \<Rightarrow> bool" where
  "originsGrow before after =
     list_all (\<lambda>r. list_ex (\<lambda>r'. row_email r' = row_email r
                                 \<and> set (row_origins r) \<subseteq> set (row_origins r')) after) before"

section \<open>The replaceable block in a draft\<close>














section \<open>Concrete stores and worlds used as examples\<close>

definition emptyStorage :: LocalStorage where
  "emptyStorage = \<lparr>summaryV2 = Absent, workspaceV1 = Absent, aiHistoryV2 = Absent,
                    aiHistoryV1 = Absent, quotaExceeded = False\<rparr>"

definition staleSummaryStorage :: LocalStorage where
  "staleSummaryStorage =
     emptyStorage\<lparr>summaryV2 :=
       Present [(''T1::M1'', \<lparr>sr_ts = 1000, sr_text = ''old'', sr_conversationId = Some ''T1''\<rparr>)]\<rparr>"

definition closureA :: RunClosure where
  "closureA = \<lparr>cl_emailKey = ''T1::M1'', cl_conversationId = Some ''T1'',
     cl_subject = Some ''Quote'', cl_activeOption = 0, cl_tplPickId = [],
     cl_composeNotes = [], cl_rewriteText = [], cl_recipientPreset = Reply,
     cl_replyAll = False, cl_includeBodyEmails = True, cl_attachOriginalItem = False\<rparr>"

definition workspaceB :: EmailWorkspace where
  "workspaceB = (freshWorkspace ''T1::M2'' 1000)
     \<lparr>ws_results := Some [\<lparr>ss_html = Some ''<p>B</p>'', ss_text = Some ''B'', ss_ts = Some 1000\<rparr>]\<rparr>"

definition worldA :: World where
  "worldA = \<lparr>panel = \<lparr>resultSlots = makeEmptySlots, resultView = ViewHtml, busy = False,
                       err = [], notice = [], sheet = ''compose''\<rparr>,
             storage = emptyStorage\<lparr>workspaceV1 := Present [(''T1::M2'', workspaceB)]\<rparr>,
             events = [], currentEmailKey = ''T1::M1''\<rparr>"

definition worldWithResult :: World where
  "worldWithResult =
     worldA\<lparr>panel := (panel worldA)
       \<lparr>resultSlots := [\<lparr>slot_html = ''<p>old</p>'', slot_text = ''old'', slot_ts = 500\<rparr>,
                        emptySlot, emptySlot]\<rparr>\<rparr>"

text \<open>
  The panel shows \<open>T1::M1\<close> with a result in its first slot, and the workspace has
  been saved since. A reply run and a summarize run are then started at 2000 and
  fail at 2100; the timer of the workspace effect, when armed, fires at 2250.
\<close>

definition componentWithResult :: Component where
  "componentWithResult =
     saveTimerFires 1500
       \<lparr>world = worldWithResult,
        saveTimer = persistEffect closureA (resultSlots (panel worldWithResult))\<rparr>"

definition failedReply :: Component where
  "failedReply =
     saveTimerFires 2250
       (runFails closureA ActReply ''boom'' 2100
          (runStarts closureA ActReply 2000 componentWithResult))"

definition failedSummarize :: Component where
  "failedSummarize =
     saveTimerFires 2250
       (runFails closureA ActSummarize ''boom'' 2100
          (runStarts closureA ActSummarize 2000 componentWithResult))"


definition senderIsMe :: OutlookMessageContext where
  "senderIsMe = \<lparr>subject = Some ''Status'', fromEmail = Some ''me@x.com'', fromName = Some ''Me'',
     internetMessageId = Some ''M7'', conversationId = Some ''T7'', itemId = None,
     receivedDateTimeIso = None,
     toRecipients = Some [\<lparr>rcp_name = ''Ann'', rcp_email = ''ann@x.com''\<rparr>],
     ccRecipients = None\<rparr>"

definition mailFromBob :: OutlookMessageContext where
  "mailFromBob = \<lparr>subject = Some ''Quote'', fromEmail = Some ''Bob@Example.com '',
     fromName = Some ''Bob'', internetMessageId = Some ''M1'', conversationId = Some ''T1'',
     itemId = None, receivedDateTimeIso = None,
     toRecipients = Some [\<lparr>rcp_name = ''Me'', rcp_email = ''me@x.com''\<rparr>,
                          \<lparr>rcp_name = ''Ann'', rcp_email = ''Ann@x.com''\<rparr>],
     ccRecipients = Some [\<lparr>rcp_name = [], rcp_email = ''<carl@y.org>''\<rparr>]\<rparr>"


text \<open>
  A trace of the automatic summary. The effect starts an attempt for \<open>T1::M1\<close> at
  time 1000, the timer fires and the summarize run is awaited. At 5000 the user
  selects \<open>T1::M2\<close>, an email without body text: the effect runs once with the body
  state still holding the text of the email before, and again when that state has
  been cleared. At 40000 the user is back on \<open>T1::M1\<close>, whose body is loaded at
  40200; the first run has still not settled. The timer armed then fires as well.
\<close>

definition autoTraceAwaiting :: AutoSummary where
  "autoTraceAwaiting =
     autoSummaryTimerFires ''T1::M1''
       (autoSummaryEffect (Some ''T1'') ''T1::M1'' ''Hello'' ''Hello'' 1000 emptyStorage
          autoSummaryInit)"

definition autoTraceAway :: AutoSummary where
  "autoTraceAway =
     autoSummaryEffect (Some ''T1'') ''T1::M2'' [] [] 5001 emptyStorage
       (autoSummaryEffect (Some ''T1'') ''T1::M2'' ''Hello'' ''Hello'' 5000 emptyStorage
          autoTraceAwaiting)"

definition autoTraceBack :: AutoSummary where
  "autoTraceBack =
     autoSummaryEffect (Some ''T1'') ''T1::M1'' [] [] 40000 emptyStorage autoTraceAway"

definition autoTraceBodyLoaded :: AutoSummary where
  "autoTraceBodyLoaded =
     autoSummaryEffect (Some ''T1'') ''T1::M1'' ''Hello'' ''Hello'' 40200 emptyStorage autoTraceBack"

definition autoTraceSecondRun :: AutoSummary where
  "autoTraceSecondRun = autoSummaryTimerFires ''T1::M1'' autoTraceBodyLoaded"

definition historyEntryA :: AiHistoryEntry where
  "historyEntryA = \<lparr>he_id = ''T1::M1-1000'', he_ts = 1000, he_emailKey = ''T1::M1'',
     he_conversationId = ''T1'', he_subject = Some ''Quote'', he_html = Some ''<p>A</p>'',
     he_text = Some ''A''\<rparr>"

section \<open>Properties of the identity resolver\<close>




lemmas string_eval = normStr_def str_or_empty_def js_or_def trim_def isWhiteSpace_def
  toLowerCase_def lowerChar_def char_of_def bit_0




































lemma fnv1a32_spec_example:
  "toHex (unat (fnv1a32_spec ''hello|bob@example.com|'')) = ''aae62b6f''"
  by (simp add: fnv1a32_spec_def toHex.simps hexDigit_def)

lemma normStr_js_or_None: "normStr (js_or x None) = normStr x"
  by (simp add: normStr_def js_or_def str_or_empty_def trim_def split: option.splits)

lemma normEmail_js_or_None: "normEmail (js_or x None) = normEmail x"
  by (simp add: normEmail_def normStr_js_or_None)

lemma normEmail_absent: "normEmail (js_or None (Some [])) = []"
  by (simp add: normEmail_def normStr_def js_or_def str_or_empty_def trim_def toLowerCase_def)

lemma makeEmailKey_typed_fallback:
  assumes "normStr (conversationId a) = []
           \<or> (normStr (internetMessageId a) = [] \<and> normStr (itemId a) = [])"
  shows "makeEmailKey (typedContext a)
           = ''nocid::h'' @ fnv1a (toLowerCase (collapseWs (normStr (subject a))) @ ''|''
                                   @ normEmail (fromEmail a) @ ''|'' @ [])"
  using assms
  by (auto simp: makeEmailKey_def typedContext_def Let_def normStr_js_or_None
      normEmail_js_or_None normEmail_absent
      OutlookMessageContext.extend_def AnyContext.fields_def)

text \<open>
  Claim C10. Two message contexts of the declared type \<open>OutlookMessageContext\<close> that
  both fall into the fallback branch and agree on subject and sender address get the
  same fallback key whatever their To and Cc recipient lists are: the third component
  of the hashed tuple is read from \<open>toEmail\<close>, which the declared type never carries,
  so it is always the empty string.
\<close>

theorem makeEmailKey_ignores_recipients:
  assumes "normStr (conversationId a) = []
           \<or> (normStr (internetMessageId a) = [] \<and> normStr (itemId a) = [])"
    and "normStr (conversationId b) = []
           \<or> (normStr (internetMessageId b) = [] \<and> normStr (itemId b) = [])"
    and "subject a = subject b" and "fromEmail a = fromEmail b"
  shows "makeEmailKey (typedContext a) = makeEmailKey (typedContext b)
       \<and> makeEmailKey (typedContext a)
           = ''nocid::h'' @ fnv1a (toLowerCase (collapseWs (normStr (subject a))) @ ''|''
                                   @ normEmail (fromEmail a) @ ''|'' @ [])"
  using makeEmailKey_typed_fallback [OF assms(1)] makeEmailKey_typed_fallback [OF assms(2)]
    assms(3,4)
  by simp

theorem makeEmailKey_ignores_recipients_witness:
  "makeEmailKey (typedContext \<lparr>subject = Some ''Hello'', fromEmail = Some ''bob@example.com'',
      fromName = None, internetMessageId = None, conversationId = None, itemId = None,
      receivedDateTimeIso = None,
      toRecipients = Some [\<lparr>rcp_name = ''Ann'', rcp_email = ''ann@x.com''\<rparr>],
      ccRecipients = None\<rparr>)
   = makeEmailKey (typedContext \<lparr>subject = Some ''Hello'', fromEmail = Some ''bob@example.com'',
      fromName = None, internetMessageId = None, conversationId = None, itemId = None,
      receivedDateTimeIso = None,
      toRecipients = Some [\<lparr>rcp_name = ''Carl'', rcp_email = ''carl@y.org''\<rparr>],
      ccRecipients = Some [\<lparr>rcp_name = ''Dora'', rcp_email = ''dora@z.net''\<rparr>]\<rparr>)"
  using makeEmailKey_ignores_recipients [of
     "\<lparr>subject = Some ''Hello'', fromEmail = Some ''bob@example.com'',
      fromName = None, internetMessageId = None, conversationId = None, itemId = None,
      receivedDateTimeIso = None,
      toRecipients = Some [\<lparr>rcp_name = ''Ann'', rcp_email = ''ann@x.com''\<rparr>],
      ccRecipients = None\<rparr>"
     "\<lparr>subject = Some ''Hello'', fromEmail = Some ''bob@example.com'',
      fromName = None, internetMessageId = None, conversationId = None, itemId = None,
      receivedDateTimeIso = None,
      toRecipients = Some [\<lparr>rcp_name = ''Carl'', rcp_email = ''carl@y.org''\<rparr>],
      ccRecipients = Some [\<lparr>rcp_name = ''Dora'', rcp_email = ''dora@z.net''\<rparr>]\<rparr>"]
  by (simp add: normStr_def str_or_empty_def trim_def)

section \<open>Properties of the local stores\<close>

lemma map_of_filter_update_same:
  "P (k, v) \<Longrightarrow> map_of (filter P (AList.update k v m)) k = Some v"
  by (induction m) auto

lemma map_of_update_first: "map_of (AList.update k v m) k = Some v"
  by (simp add: update_conv')

lemma upsert_storage:
  assumes "summaryV2 ls \<noteq> Broken" "\<not> quotaExceeded ls"
  shows "upsertSummary k txt conv T (ls, ev) =
      (ls\<lparr>summaryV2 := Present (filter (\<lambda>(k, r). \<not> summaryStale T r)
           (AList.update k \<lparr>sr_ts = T, sr_text = txt, sr_conversationId = Some conv\<rparr>
              (parsed_or [] (summaryV2 ls))))\<rparr>, ev @ [(k, conv)])"
  using assms by (simp add: upsertSummary_def Let_def)

lemma summary_retention:
  assumes "summaryV2 ls \<noteq> Broken" "\<not> quotaExceeded ls" "0 < T"
  shows "fst (loadSummary k (T + WORKSPACE_KEEP_MS - 1) (fst (upsertSummary k txt conv T (ls, ev)))) = txt"
    and "fst (loadSummary k (T + WORKSPACE_KEEP_MS) (fst (upsertSummary k txt conv T (ls, ev)))) = txt"
    and "fst (loadSummary k (T + WORKSPACE_KEEP_MS + 1) (fst (upsertSummary k txt conv T (ls, ev)))) = []"
proof -
  let ?row = "\<lparr>sr_ts = T, sr_text = txt, sr_conversationId = Some conv\<rparr>"
  have keep: "0 \<le> WORKSPACE_KEEP_MS" by (simp add: WORKSPACE_KEEP_MS_def)
  have fresh: "(\<lambda>(k, r). \<not> summaryStale T r) (k, ?row)"
    using assms(3) keep by (simp add: summaryStale_def)
  have look: "map_of (filter (\<lambda>(k, r). \<not> summaryStale T r)
           (AList.update k ?row (parsed_or [] (summaryV2 ls)))) k = Some ?row"
    by (rule map_of_filter_update_same) (rule fresh)
  show "fst (loadSummary k (T + WORKSPACE_KEEP_MS - 1) (fst (upsertSummary k txt conv T (ls, ev)))) = txt"
    using look by (simp add: upsert_storage [OF assms(1,2)] loadSummary_def parsed_or_def)
  show "fst (loadSummary k (T + WORKSPACE_KEEP_MS) (fst (upsertSummary k txt conv T (ls, ev)))) = txt"
    using look by (simp add: upsert_storage [OF assms(1,2)] loadSummary_def parsed_or_def)
  show "fst (loadSummary k (T + WORKSPACE_KEEP_MS + 1) (fst (upsertSummary k txt conv T (ls, ev)))) = []"
    using look by (simp add: upsert_storage [OF assms(1,2)] loadSummary_def parsed_or_def)
qed

lemma loadSummary_storage: "snd (loadSummary k now ls) = ls"
  by (simp add: loadSummary_def split: option.splits)

lemma upsert_pruned:
  "summaryV2 ls \<noteq> Broken \<Longrightarrow> \<not> quotaExceeded ls \<Longrightarrow>
   summariesPruned now (fst (upsertSummary k txt conv now (ls, ev)))"
  by (auto simp: upsert_storage summariesPruned_def parsed_or_def list_all_iff)

lemma loadWorkspaces_result:
  assumes "\<not> quotaExceeded ls"
  shows "fst (loadWorkspaces now ls) =
           map (\<lambda>(k, v). (k, v\<lparr>ws_key := k\<rparr>))
             (filter (\<lambda>(k, v). \<not> workspaceStale now v) (parsed_or [] (workspaceV1 ls)))"
  using assms by (auto simp: loadWorkspaces_def Let_def parsed_or_def)

lemma loadWorkspaces_quota: "quotaExceeded (snd (loadWorkspaces now ls)) = quotaExceeded ls"
  by (simp add: loadWorkspaces_def Let_def)

lemma loadWorkspaces_pruned:
  assumes "\<not> quotaExceeded ls"
  shows "workspacesPruned now (snd (loadWorkspaces now ls))"
proof (cases "workspaceV1 ls = Broken")
  case True then show ?thesis by (simp add: loadWorkspaces_def workspacesPruned_def parsed_or_def)
next
  case False
  let ?data = "parsed_or [] (workspaceV1 ls)"
  let ?kept = "filter (\<lambda>(k, v). \<not> workspaceStale now v) ?data"
  show ?thesis
  proof (cases "length ?kept = length ?data")
    case True
    then have "?kept = ?data" by (metis filter_True length_filter_less less_irrefl_nat filter_id_conv)
    then have "list_all (\<lambda>(k, v). \<not> workspaceStale now v) ?data"
      by (metis (mono_tags, lifting) Ball_set filter_id_conv)
    with True False show ?thesis
      by (simp add: loadWorkspaces_def Let_def workspacesPruned_def)
  next
    case neq: False
    have "list_all (\<lambda>(k, v). \<not> workspaceStale now v) (map (\<lambda>(k, v). (k, v\<lparr>ws_key := k\<rparr>)) ?kept)"
      by (auto simp: list_all_iff workspaceStale_def)
    with neq False assms show ?thesis
      by (simp add: loadWorkspaces_def Let_def workspacesPruned_def parsed_or_def)
  qed
qed

lemma map_of_norm_filter_update_same:
  "P (k, v) \<Longrightarrow>
   map_of (map (\<lambda>(k, v). (k, f k v)) (filter P (AList.update k v m))) k = Some (f k v)"
  by (induction m) auto

lemma update_only_entry:
  "distinct (map fst m) \<Longrightarrow> (k, v') \<in> set (AList.update k v m) \<Longrightarrow> v' = v"
proof (induction m)
  case Nil
  then show ?case by simp
next
  case (Cons a m)
  obtain a1 a2 where a: "a = (a1, a2)" by (cases a)
  show ?case
  proof (cases "a1 = k")
    case True
    with Cons.prems a have "k \<notin> fst ` set m" by auto
    with Cons.prems(2) a True show ?thesis by force
  next
    case False
    with Cons a show ?thesis by auto
  qed
qed

lemma map_of_norm_filter_update_gone:
  assumes "distinct (map fst m)" "\<not> P (k, v)"
  shows "map_of (map (\<lambda>(k, v). (k, f k v)) (filter P (AList.update k v m))) k = None"
proof -
  have "k \<notin> fst ` set (filter P (AList.update k v m))"
    using update_only_entry [OF assms(1)] assms(2) by force
  then have "k \<notin> fst ` set (map (\<lambda>(k, v). (k, f k v)) (filter P (AList.update k v m)))"
    by force
  then show ?thesis by (simp add: map_of_eq_None_iff)
qed

lemma loadWorkspaces_keys_distinct:
  assumes "distinct (map fst (parsed_or [] (workspaceV1 ls)))"
  shows "distinct (map fst (fst (loadWorkspaces now ls)))"
proof -
  have eq: "(fst \<circ> (\<lambda>(k, v). (k, v\<lparr>ws_key := k\<rparr>))) = (fst :: string \<times> EmailWorkspace \<Rightarrow> string)"
    by auto
  show ?thesis
    using assms by (auto simp: loadWorkspaces_def Let_def eq distinct_map_filter)
qed

lemma saveWorkspace_storage:
  assumes "\<not> quotaExceeded ls"
  shows "saveWorkspace ws now ls =
           (snd (loadWorkspaces now ls))
             \<lparr>workspaceV1 := Present (AList.update (ws_key ws) ws (fst (loadWorkspaces now ls)))\<rparr>"
  using assms by (simp add: saveWorkspace_def loadWorkspaces_quota split: prod.splits)
      (metis loadWorkspaces_quota snd_conv fst_conv)

lemma saveWorkspace_quota: "quotaExceeded (saveWorkspace ws now ls) = quotaExceeded ls"
  by (cases "quotaExceeded ls")
     (auto simp: saveWorkspace_def loadWorkspaces_def Let_def split: prod.splits if_splits)

lemma workspace_retention:
  assumes wf: "distinct (map fst (parsed_or [] (workspaceV1 ls)))"
    and q: "\<not> quotaExceeded ls" and T: "0 < T" and upd: "ws_updatedAt ws = T"
  shows "fst (loadWorkspace (ws_key ws) (T + WORKSPACE_KEEP_MS - 1) (saveWorkspace ws T ls)) = ws"
    and "map_of (fst (loadWorkspaces (T + WORKSPACE_KEEP_MS + 1) (saveWorkspace ws T ls))) (ws_key ws) = None"
proof -
  let ?all = "fst (loadWorkspaces T ls)"
  let ?ls' = "saveWorkspace ws T ls"
  have keep: "0 \<le> WORKSPACE_KEEP_MS" by (simp add: WORKSPACE_KEEP_MS_def)
  have q': "\<not> quotaExceeded ?ls'" using q by (simp add: saveWorkspace_quota)
  have stored: "parsed_or [] (workspaceV1 ?ls') = AList.update (ws_key ws) ws ?all"
    by (simp add: saveWorkspace_storage [OF q] parsed_or_def)
  have d: "distinct (map fst ?all)" by (rule loadWorkspaces_keys_distinct [OF wf])
  have fresh: "(\<lambda>(k, v). \<not> workspaceStale (T + WORKSPACE_KEEP_MS - 1) v) (ws_key ws, ws)"
    using T upd keep by (simp add: workspaceStale_def)
  have stale: "\<not> (\<lambda>(k, v). \<not> workspaceStale (T + WORKSPACE_KEEP_MS + 1) v) (ws_key ws, ws)"
    using T upd by (simp add: workspaceStale_def)
  have "map_of (fst (loadWorkspaces (T + WORKSPACE_KEEP_MS - 1) ?ls')) (ws_key ws)
        = Some (ws\<lparr>ws_key := ws_key ws\<rparr>)"
    unfolding loadWorkspaces_result [OF q'] stored
    by (rule map_of_norm_filter_update_same [where f = "\<lambda>k v. v\<lparr>ws_key := k\<rparr>"]) (rule fresh)
  then show "fst (loadWorkspace (ws_key ws) (T + WORKSPACE_KEEP_MS - 1) ?ls') = ws"
    by (cases "loadWorkspaces (T + WORKSPACE_KEEP_MS - 1) ?ls'") (simp add: loadWorkspace_def)
  show "map_of (fst (loadWorkspaces (T + WORKSPACE_KEEP_MS + 1) ?ls')) (ws_key ws) = None"
    unfolding loadWorkspaces_result [OF q'] stored
    by (rule map_of_norm_filter_update_gone
          [where f = "\<lambda>k v. v\<lparr>ws_key := k\<rparr>"
             and P = "\<lambda>(k, v). \<not> workspaceStale (T + WORKSPACE_KEEP_MS + 1) v", OF d stale])
qed

lemma saveWorkspace_pruned:
  assumes "\<not> quotaExceeded ls"
  shows "list_all (\<lambda>(k, v). k = ws_key ws \<or> \<not> workspaceStale now v)
           (parsed_or [] (workspaceV1 (saveWorkspace ws now ls)))"
proof -
  have "list_all (\<lambda>(k, v). \<not> workspaceStale now v) (fst (loadWorkspaces now ls))"
    by (auto simp: loadWorkspaces_result [OF assms] list_all_iff workspaceStale_def)
  moreover have "x \<in> set (AList.update k v m) \<Longrightarrow> x = (k, v) \<or> x \<in> set m"
    for x k v and m :: "(string \<times> EmailWorkspace) list"
    by (induction m) (auto split: if_splits)
  ultimately show ?thesis
    unfolding saveWorkspace_storage [OF assms] parsed_or_def list_all_iff
    by fastforce
qed

lemma he_ts_migrate: "he_ts (migrateEntry x) = he_ts x"
  by (simp add: migrateEntry_def Let_def)

lemma loadAiHistory_result:
  assumes "\<not> quotaExceeded ls" "aiHistoryV2 ls = Present xs"
  shows "fst (loadAiHistory now ls) = map migrateEntry (filter (historyFresh now) xs)"
    and "aiHistoryV2 (snd (loadAiHistory now ls)) = Present (map migrateEntry (filter (historyFresh now) xs))"
  using assms by (simp_all add: loadAiHistory_def Let_def parsed_or_def)

lemma last_in_drop:
  assumes "xs \<noteq> []" "0 < n"
  shows "last xs \<in> set (drop (length xs - n) xs)"
proof -
  have lt: "length xs - n < length xs" using assms by (cases xs) auto
  then have ne: "drop (length xs - n) xs \<noteq> []" by simp
  have "last (drop (length xs - n) xs) = last xs" using lt by (simp add: last_drop)
  with ne show ?thesis by (metis last_in_set)
qed

lemma saveAiHistory_keeps_last:
  assumes "\<not> quotaExceeded ls" "historyFresh now e"
  shows "\<exists>xs. aiHistoryV2 (saveAiHistory (prev @ [e]) now ls) = Present xs \<and> e \<in> set xs"
proof -
  let ?pr = "filter (historyFresh now) (prev @ [e])"
  have pr: "?pr = filter (historyFresh now) prev @ [e]" using assms(2) by simp
  then have "?pr \<noteq> []" and "last ?pr = e" by simp_all
  then have "e \<in> set (drop (length ?pr - 300) ?pr)"
    using last_in_drop [of ?pr 300] by simp
  then show ?thesis using assms(1) by (simp add: saveAiHistory_def Let_def)
qed

lemma saveAiHistory_quota: "quotaExceeded (saveAiHistory es now ls) = quotaExceeded ls"
  by (simp add: saveAiHistory_def Let_def)

lemma history_retention:
  assumes q: "\<not> quotaExceeded ls" and ts: "he_ts e = T"
  shows "migrateEntry e \<in> set (fst (loadAiHistory (T + AI_HISTORY_KEEP_MS - 1) (saveAiHistory (prev @ [e]) T ls)))"
    and "list_all (\<lambda>x. T < he_ts x) (fst (loadAiHistory (T + AI_HISTORY_KEEP_MS + 1) (saveAiHistory (prev @ [e]) T ls)))"
proof -
  have keep: "0 \<le> AI_HISTORY_KEEP_MS" by (simp add: AI_HISTORY_KEEP_MS_def)
  have fresh: "historyFresh T e" using ts keep by (simp add: historyFresh_def)
  obtain xs where xs: "aiHistoryV2 (saveAiHistory (prev @ [e]) T ls) = Present xs" "e \<in> set xs"
    using saveAiHistory_keeps_last [OF q fresh] by blast
  have q': "\<not> quotaExceeded (saveAiHistory (prev @ [e]) T ls)" using q by (simp add: saveAiHistory_quota)
  have "historyFresh (T + AI_HISTORY_KEEP_MS - 1) e" using ts by (simp add: historyFresh_def)
  then show "migrateEntry e \<in> set (fst (loadAiHistory (T + AI_HISTORY_KEEP_MS - 1) (saveAiHistory (prev @ [e]) T ls)))"
    using xs by (simp add: loadAiHistory_result(1) [OF q' xs(1)])
  show "list_all (\<lambda>x. T < he_ts x) (fst (loadAiHistory (T + AI_HISTORY_KEEP_MS + 1) (saveAiHistory (prev @ [e]) T ls)))"
    by (auto simp: loadAiHistory_result(1) [OF q' xs(1)] list_all_iff he_ts_migrate historyFresh_def)
qed

lemma loadAiHistory_pruned:
  assumes "\<not> quotaExceeded ls"
  shows "historyPruned now (snd (loadAiHistory now ls))"
  using assms
  by (auto simp: loadAiHistory_def Let_def historyPruned_def parsed_or_def list_all_iff
      historyFresh_def he_ts_migrate)

lemma saveAiHistory_pruned:
  assumes "\<not> quotaExceeded ls"
  shows "historyPruned now (saveAiHistory es now ls)"
  using assms
  by (auto simp: saveAiHistory_def Let_def historyPruned_def parsed_or_def list_all_iff
      dest: in_set_dropD)


lemma appLoadSummary_pruned:
  assumes "\<not> quotaExceeded ls"
  shows "summariesUnexpired now (snd (appLoadSummary k now ls))"
proof (cases "summaryV2 ls = Broken")
  case True
  then show ?thesis by (simp add: appLoadSummary_def summariesUnexpired_def parsed_or_def)
next
  case False
  let ?obj = "parsed_or [] (summaryV2 ls)"
  let ?pruned = "filter (\<lambda>(k, v). now - sr_ts v \<le> WORKSPACE_KEEP_MS) ?obj"
  have p: "list_all (\<lambda>(k, r). now - sr_ts r \<le> WORKSPACE_KEEP_MS) ?pruned"
    by (auto simp: list_all_iff)
  show ?thesis
  proof (cases "?pruned = ?obj")
    case True
    with p have "list_all (\<lambda>(k, r). now - sr_ts r \<le> WORKSPACE_KEEP_MS) ?obj" by simp
    with True False show ?thesis
      by (simp add: appLoadSummary_def summariesUnexpired_def Let_def)
  next
    case neq: False
    with p False assms show ?thesis
      by (simp add: appLoadSummary_def summariesUnexpired_def Let_def parsed_or_def)
  qed
qed

lemma appLoadSummary_shown:
  assumes "\<not> quotaExceeded ls" "summaryV2 ls \<noteq> Broken"
  shows "fst (appLoadSummary k now ls)
         = (case map_of (filter (\<lambda>(k, v). now - sr_ts v \<le> WORKSPACE_KEEP_MS)
                          (parsed_or [] (summaryV2 ls))) k of
              None \<Rightarrow> [] | Some v \<Rightarrow> sr_text v)"
  using assms by (simp add: appLoadSummary_def Let_def)

lemma map_of_filter_update_gone_first:
  "\<not> P (k, v) \<Longrightarrow> distinct (map fst m) \<Longrightarrow> map_of (filter P (AList.update k v m)) k = None"
proof -
  assume np: "\<not> P (k, v)" and d: "distinct (map fst m)"
  have "k \<notin> fst ` set (filter P (AList.update k v m))"
    using update_only_entry [OF d] np by force
  then show ?thesis by (simp add: map_of_eq_None_iff)
qed

lemma app_summary_retention:
  assumes nb: "summaryV2 ls \<noteq> Broken" and q: "\<not> quotaExceeded ls" and T: "0 < T"
    and d: "distinct (map fst (parsed_or [] (summaryV2 ls)))"
  shows "fst (appLoadSummary k (T + WORKSPACE_KEEP_MS - 1) (fst (upsertSummary k txt conv T (ls, ev)))) = txt"
    and "fst (appLoadSummary k (T + WORKSPACE_KEEP_MS + 1) (fst (upsertSummary k txt conv T (ls, ev)))) = []"
proof -
  let ?row = "\<lparr>sr_ts = T, sr_text = txt, sr_conversationId = Some conv\<rparr>"
  let ?m = "filter (\<lambda>(k, r). \<not> summaryStale T r) (AList.update k ?row (parsed_or [] (summaryV2 ls)))"
  let ?ls' = "fst (upsertSummary k txt conv T (ls, ev))"
  have keep: "0 \<le> WORKSPACE_KEEP_MS" by (simp add: WORKSPACE_KEEP_MS_def)
  have st: "?ls' = ls\<lparr>summaryV2 := Present ?m\<rparr>"
    by (simp add: upsert_storage [OF nb q])
  have q': "\<not> quotaExceeded ?ls'" and nb': "summaryV2 ?ls' \<noteq> Broken"
    using q by (simp_all add: st)
  have po: "parsed_or [] (summaryV2 ?ls') = ?m" by (simp add: st parsed_or_def)
  have ff: "filter Q (filter R xs) = filter (\<lambda>x. R x \<and> Q x) xs" for Q R and xs :: "(string \<times> SummaryRow) list"
    by (induction xs) auto
  have a: "map_of (filter (\<lambda>(k, v). T + WORKSPACE_KEEP_MS - 1 - sr_ts v \<le> WORKSPACE_KEEP_MS) ?m) k
           = Some ?row"
    unfolding ff
    by (rule map_of_filter_update_same) (use T keep in \<open>simp add: summaryStale_def\<close>)
  have b: "map_of (filter (\<lambda>(k, v). T + WORKSPACE_KEEP_MS + 1 - sr_ts v \<le> WORKSPACE_KEEP_MS) ?m) k
           = None"
    unfolding ff
    by (rule map_of_filter_update_gone_first) (use d in \<open>simp_all\<close>)
  show "fst (appLoadSummary k (T + WORKSPACE_KEEP_MS - 1) ?ls') = txt"
    unfolding appLoadSummary_shown [OF q' nb'] po a by simp
  show "fst (appLoadSummary k (T + WORKSPACE_KEEP_MS + 1) ?ls') = []"
    unfolding appLoadSummary_shown [OF q' nb'] po b by simp
qed

lemmas store_eval = appLoadSummary_def summariesUnexpired_def loadSummary_def upsertSummary_def loadWorkspaces_def loadWorkspace_def
  saveWorkspace_def loadAiHistory_def saveAiHistory_def parsed_or_def summaryStale_def
  workspaceStale_def historyFresh_def migrateEntry_def WORKSPACE_KEEP_MS_def
  AI_HISTORY_KEEP_MS_def freshWorkspace_def storageWellFormed_def summariesPruned_def
  workspacesPruned_def historyPruned_def emptyStorage_def Let_def

text \<open>
  Claim C3, as stated, says that expired records are dropped whenever a namespace is
  read. Reading the summaries namespace does not do that: \<open>loadSummary\<close> withholds an
  expired row but leaves it in the storage.
\<close>

theorem retention_read_counterexample:
  "fst (loadSummary ''T1::M1'' (1000 + WORKSPACE_KEEP_MS + 1) staleSummaryStorage) = []
   \<and> \<not> summariesPruned (1000 + WORKSPACE_KEEP_MS + 1)
         (snd (loadSummary ''T1::M1'' (1000 + WORKSPACE_KEEP_MS + 1) staleSummaryStorage))"
  by (simp add: store_eval staleSummaryStorage_def)

text \<open>
  Claim C3, amended. In each of the three namespaces, with the retention window of
  five days, a record written at time \<open>T\<close> (a positive clock value, into a store that
  parses and accepts writes) is returned by a read at \<open>T + RETENTION_MS - 1\<close> and is
  not returned at \<open>T + RETENTION_MS + 1\<close>. Expired records are dropped from a
  namespace whenever it is written (\<open>upsertSummary\<close>, \<open>saveWorkspace\<close>,
  \<open>saveAiHistory\<close>), whenever the workspaces or the history are read
  (\<open>loadWorkspaces\<close>, \<open>loadAiHistory\<close>) and whenever the task pane loads a
  summary (\<open>loadSummary\<close> of \<open>App.tsx\<close>); the \<open>loadSummary\<close> of the panel
  leaves the storage as it is. Pruning happens inside these operations only: the
  source has no timer that prunes.
\<close>

theorem retention_window:
  assumes "storageWellFormed ls" and "\<not> quotaExceeded ls" and "summaryV2 ls \<noteq> Broken"
    and "0 < T" and "ws_updatedAt ws = T" and "he_ts e = T"
  shows "fst (loadSummary k (T + WORKSPACE_KEEP_MS - 1)
                (fst (upsertSummary k txt conv T (ls, ev)))) = txt
       \<and> fst (loadSummary k (T + WORKSPACE_KEEP_MS + 1)
                (fst (upsertSummary k txt conv T (ls, ev)))) = []
       \<and> fst (loadWorkspace (ws_key ws) (T + WORKSPACE_KEEP_MS - 1) (saveWorkspace ws T ls)) = ws
       \<and> map_of (fst (loadWorkspaces (T + WORKSPACE_KEEP_MS + 1) (saveWorkspace ws T ls)))
            (ws_key ws) = None
       \<and> migrateEntry e \<in> set (fst (loadAiHistory (T + AI_HISTORY_KEEP_MS - 1)
                                      (saveAiHistory (prev @ [e]) T ls)))
       \<and> list_all (\<lambda>x. T < he_ts x)
            (fst (loadAiHistory (T + AI_HISTORY_KEEP_MS + 1) (saveAiHistory (prev @ [e]) T ls)))
       \<and> summariesPruned now (fst (upsertSummary k txt conv now (ls, ev)))
       \<and> workspacesPruned now (snd (loadWorkspaces now ls))
       \<and> list_all (\<lambda>(k', v). k' = ws_key ws \<or> \<not> workspaceStale now v)
            (parsed_or [] (workspaceV1 (saveWorkspace ws now ls)))
       \<and> historyPruned now (snd (loadAiHistory now ls))
       \<and> historyPruned now (saveAiHistory es now ls)
       \<and> snd (loadSummary k now ls) = ls
       \<and> fst (appLoadSummary k (T + WORKSPACE_KEEP_MS - 1)
                (fst (upsertSummary k txt conv T (ls, ev)))) = txt
       \<and> fst (appLoadSummary k (T + WORKSPACE_KEEP_MS + 1)
                (fst (upsertSummary k txt conv T (ls, ev)))) = []
       \<and> summariesUnexpired now (snd (appLoadSummary k now ls))"
proof -
  have wf: "distinct (map fst (parsed_or [] (workspaceV1 ls)))"
    and wfs: "distinct (map fst (parsed_or [] (summaryV2 ls)))"
    using assms(1) by (simp_all add: storageWellFormed_def)
  note s = summary_retention [OF assms(3) assms(2) assms(4)]
  note a = app_summary_retention [OF assms(3) assms(2) assms(4) wfs]
  note w = workspace_retention [OF wf assms(2) assms(4) assms(5)]
  note h = history_retention [OF assms(2) assms(6)]
  show ?thesis
    by (intro conjI)
       (rule s(1) s(3) w h upsert_pruned [OF assms(3) assms(2)]
          loadWorkspaces_pruned [OF assms(2)] saveWorkspace_pruned [OF assms(2)]
          loadAiHistory_pruned [OF assms(2)] saveAiHistory_pruned [OF assms(2)]
          loadSummary_storage a appLoadSummary_pruned [OF assms(2)])+
qed

theorem retention_window_witness:
  "fst (loadSummary ''T1::M1'' (1000 + WORKSPACE_KEEP_MS - 1)
          (fst (upsertSummary ''T1::M1'' ''abc'' ''T1'' 1000 (emptyStorage, [])))) = ''abc''
   \<and> fst (loadSummary ''T1::M1'' (1000 + WORKSPACE_KEEP_MS + 1)
          (fst (upsertSummary ''T1::M1'' ''abc'' ''T1'' 1000 (emptyStorage, [])))) = []
   \<and> fst (loadWorkspace ''T1::M2'' (1000 + WORKSPACE_KEEP_MS - 1)
          (saveWorkspace workspaceB 1000 emptyStorage)) = workspaceB
   \<and> map_of (fst (loadWorkspaces (1000 + WORKSPACE_KEEP_MS + 1)
                   (saveWorkspace workspaceB 1000 emptyStorage))) ''T1::M2'' = None
   \<and> historyEntryA \<in> set (fst (loadAiHistory (1000 + AI_HISTORY_KEEP_MS - 1)
                                 (saveAiHistory ([] @ [historyEntryA]) 1000 emptyStorage)))
   \<and> fst (loadAiHistory (1000 + AI_HISTORY_KEEP_MS + 1)
            (saveAiHistory ([] @ [historyEntryA]) 1000 emptyStorage)) = []
   \<and> fst (appLoadSummary ''T1::M1'' (1000 + WORKSPACE_KEEP_MS - 1)
          (fst (upsertSummary ''T1::M1'' ''abc'' ''T1'' 1000 (emptyStorage, [])))) = ''abc''
   \<and> fst (appLoadSummary ''T1::M1'' (1000 + WORKSPACE_KEEP_MS + 1)
          (fst (upsertSummary ''T1::M1'' ''abc'' ''T1'' 1000 (emptyStorage, [])))) = []"
proof -
  have hyps: "storageWellFormed emptyStorage" "\<not> quotaExceeded emptyStorage"
    "summaryV2 emptyStorage \<noteq> Broken" "(0::int) < 1000" "ws_updatedAt workspaceB = 1000"
    "he_ts historyEntryA = 1000"
    by (simp_all add: store_eval workspaceB_def historyEntryA_def)
  have m: "migrateEntry historyEntryA = historyEntryA"
    by (simp add: migrateEntry_def historyEntryA_def)
  have k: "ws_key workspaceB = ''T1::M2''"
    by (simp add: workspaceB_def freshWorkspace_def)
  have none: "fst (loadAiHistory (1000 + AI_HISTORY_KEEP_MS + 1)
            (saveAiHistory ([] @ [historyEntryA]) 1000 emptyStorage)) = []"
    by (simp add: store_eval historyEntryA_def)
  show ?thesis
    using retention_window [OF hyps, of "''T1::M1''" "''abc''" "''T1''" "[]" "[]" 1000 "[]"]
      m k none
    by simp
qed

section \<open>Properties of the generation run\<close>

lemmas run_eval = run_finish_def run_start_def showEmail_def
  restoreSlots_def restoredSlot_def setHtmlOut_def setTextOut_def assignSlot_def slotAt_def
  makeEmptySlots_def emptySlot_def str_or_empty_def orUndefined_def
  closureA_def worldA_def workspaceB_def worldWithResult_def

lemma run_finish_generated_other:
  "action \<noteq> ActSummarize \<Longrightarrow>
   run_finish cl action (Generated h t) now w =
     w\<lparr>panel := (panel w)
         \<lparr>resultSlots := setTextOut (cl_activeOption cl) t now
                          (setHtmlOut (cl_activeOption cl) h now (resultSlots (panel w))),
          resultView := (if h \<noteq> [] then ViewHtml else ViewText),
          sheet := [], busy := False\<rparr>\<rparr>"
  by (simp add: run_finish_def)

lemma update_subset:
  "x \<in> set (AList.update k v m) \<Longrightarrow> x = (k, v) \<or> x \<in> set m"
  by (induction m) (auto split: if_splits)

lemma slot_overwrite:
  "(r :: ResultSlot)\<lparr>slot_html := a, slot_text := b, slot_ts := c\<rparr>
   = \<lparr>slot_html = a, slot_text = b, slot_ts = c\<rparr>"
  by (cases r) simp

text \<open>
  Claim C1 asks that a run of reply, rewrite or tasks which completes while the panel
  shows another email than the one it started for leaves the visible result slots
  alone and stores its output in the workspace of the email it started for. The run
  below starts for \<open>T1::M1\<close>, the panel then comes to show \<open>T1::M2\<close> (whose first
  slot holds that email's own earlier result), and the generator answers. The
  comparison \<open>runEmailKey !== emailKey\<close> reads one constant twice, so the run takes
  the branch for an unchanged email: the output generated for \<open>T1::M1\<close> replaces the
  visible result of \<open>T1::M2\<close>, and no workspace record for \<open>T1::M1\<close> is written.
\<close>

theorem run_cross_identity_leak:
  "(let shownB = showEmail ''T1::M2'' 3000 (run_start closureA ActReply 2000 worldA);
        done = run_finish closureA ActReply (Generated ''<p>A</p>'' ''A'') 4000 shownB
    in currentEmailKey shownB = ''T1::M2''
     \<and> resultSlots (panel shownB) ! 0 = \<lparr>slot_html = ''<p>B</p>'', slot_text = ''B'', slot_ts = 1000\<rparr>
     \<and> currentEmailKey done = ''T1::M2''
     \<and> resultSlots (panel done) ! 0 = \<lparr>slot_html = ''<p>A</p>'', slot_text = ''A'', slot_ts = 4000\<rparr>
     \<and> storage done = storage shownB
     \<and> map_of (parsed_or [] (workspaceV1 (storage done))) ''T1::M1'' = None)"
  by (simp add: run_eval store_eval)

text \<open>
  Claim C4. A completed summarize run never writes into the visible result slots, at
  its start or at its end, and leaves the workspaces and the history alone. Its text
  goes into the summaries namespace only, under the identity the run was started for,
  whatever email the panel shows by then: when that identity and the text are not
  empty and the store parses and accepts the write, the row for that identity is the
  new text, every other row of the namespace was there before, and one event carrying
  that identity has been dispatched after the write; otherwise storage and events are
  as they were.
\<close>

theorem summarize_completion:
  "resultSlots (panel (run_start cl ActSummarize started w)) = resultSlots (panel w)
   \<and> (let w' = run_finish cl ActSummarize (Generated safeHtml plainTxt) now w;
           key = cl_emailKey cl;
           conv = str_or_empty (cl_conversationId cl);
           row = \<lparr>sr_ts = now, sr_text = plainTxt, sr_conversationId = Some conv\<rparr>
       in resultSlots (panel w') = resultSlots (panel w)
        \<and> resultView (panel w') = resultView (panel w)
        \<and> workspaceV1 (storage w') = workspaceV1 (storage w)
        \<and> aiHistoryV2 (storage w') = aiHistoryV2 (storage w)
        \<and> aiHistoryV1 (storage w') = aiHistoryV1 (storage w)
        \<and> (key \<noteq> [] \<and> plainTxt \<noteq> [] \<and> summaryV2 (storage w) \<noteq> Broken
              \<and> \<not> quotaExceeded (storage w) \<longrightarrow>
            events w' = events w @ [(key, conv)]
            \<and> (0 < now \<longrightarrow> map_of (parsed_or [] (summaryV2 (storage w'))) key = Some row
                            \<and> fst (loadSummary key now (storage w')) = plainTxt)
            \<and> (\<forall>x \<in> set (parsed_or [] (summaryV2 (storage w'))).
                   x = (key, row) \<or> x \<in> set (parsed_or [] (summaryV2 (storage w)))))
        \<and> (\<not> (key \<noteq> [] \<and> plainTxt \<noteq> [] \<and> summaryV2 (storage w) \<noteq> Broken
                 \<and> \<not> quotaExceeded (storage w)) \<longrightarrow>
            storage w' = storage w \<and> events w' = events w))"
proof -
  let ?key = "cl_emailKey cl"
  let ?conv = "str_or_empty (cl_conversationId cl)"
  let ?row = "\<lparr>sr_ts = now, sr_text = plainTxt, sr_conversationId = Some ?conv\<rparr>"
  let ?w' = "run_finish cl ActSummarize (Generated safeHtml plainTxt) now w"
  have start: "resultSlots (panel (run_start cl ActSummarize started w)) = resultSlots (panel w)"
    by (simp add: run_start_def Let_def)
  have same: "resultSlots (panel ?w') = resultSlots (panel w)"
    "resultView (panel ?w') = resultView (panel w)"
    "workspaceV1 (storage ?w') = workspaceV1 (storage w)"
    "aiHistoryV2 (storage ?w') = aiHistoryV2 (storage w)"
    "aiHistoryV1 (storage ?w') = aiHistoryV1 (storage w)"
    by (simp_all add: run_finish_def upsertSummary_def Let_def split: prod.splits)
  have skip: "storage ?w' = storage w \<and> events ?w' = events w"
    if "\<not> (?key \<noteq> [] \<and> plainTxt \<noteq> [] \<and> summaryV2 (storage w) \<noteq> Broken
                 \<and> \<not> quotaExceeded (storage w))"
    using that by (auto simp: run_finish_def upsertSummary_def Let_def split: prod.splits)
  have wrote: "events ?w' = events w @ [(?key, ?conv)]
            \<and> (0 < now \<longrightarrow> map_of (parsed_or [] (summaryV2 (storage ?w'))) ?key = Some ?row
                            \<and> fst (loadSummary ?key now (storage ?w')) = plainTxt)
            \<and> (\<forall>x \<in> set (parsed_or [] (summaryV2 (storage ?w'))).
                   x = (?key, ?row) \<or> x \<in> set (parsed_or [] (summaryV2 (storage w))))"
    if c: "?key \<noteq> [] \<and> plainTxt \<noteq> [] \<and> summaryV2 (storage w) \<noteq> Broken
                 \<and> \<not> quotaExceeded (storage w)"
  proof -
    from c have nb: "summaryV2 (storage w) \<noteq> Broken" and q: "\<not> quotaExceeded (storage w)" by simp_all
    let ?m = "filter (\<lambda>(k, r). \<not> summaryStale now r)
                 (AList.update ?key ?row (parsed_or [] (summaryV2 (storage w))))"
    have st: "storage ?w' = (storage w)\<lparr>summaryV2 := Present ?m\<rparr>"
      and ev: "events ?w' = events w @ [(?key, ?conv)]"
      using c by (simp_all add: run_finish_def upsert_storage [OF nb q] Let_def)
    have keep: "0 \<le> WORKSPACE_KEEP_MS" by (simp add: WORKSPACE_KEEP_MS_def)
    have look: "map_of ?m ?key = Some ?row" if "0 < now"
      by (rule map_of_filter_update_same) (use that keep in \<open>simp add: summaryStale_def\<close>)
    have sub: "\<forall>x \<in> set ?m. x = (?key, ?row) \<or> x \<in> set (parsed_or [] (summaryV2 (storage w)))"
      using update_subset by fastforce
    show ?thesis
      using ev look sub keep by (auto simp: st parsed_or_def loadSummary_def)
  qed
  show ?thesis
    unfolding Let_def using start same skip wrote by blast
qed

theorem summarize_completion_witness:
  "(let w' = run_finish closureA ActSummarize (Generated ''<p>S</p>'' ''S'') 4000
               (showEmail ''T1::M2'' 3000 (run_start closureA ActSummarize 2000 worldA))
    in currentEmailKey w' = ''T1::M2''
     \<and> resultSlots (panel w') = resultSlots (panel (showEmail ''T1::M2'' 3000 worldA))
     \<and> events w' = [(''T1::M1'', ''T1'')]
     \<and> fst (loadSummary ''T1::M1'' 4000 (storage w')) = ''S''
     \<and> fst (loadSummary ''T1::M2'' 4000 (storage w')) = [])"
  using summarize_completion [where cl = closureA and started = 2000 and safeHtml = "''<p>S</p>''"
      and plainTxt = "''S''" and now = 4000
      and w = "showEmail ''T1::M2'' 3000 (run_start closureA ActSummarize 2000 worldA)"]
  by (simp add: run_eval store_eval)

lemmas persist_eval = componentWithResult_def failedReply_def failedSummarize_def
  saveTimerFires_def runStarts_def runFails_def persistEffect_def workspaceOfRender_def
  storedSlot_def

lemma saveWorkspace_lookup:
  "\<not> quotaExceeded ls \<Longrightarrow>
   map_of (parsed_or [] (workspaceV1 (saveWorkspace ws now ls))) (ws_key ws) = Some ws"
  by (simp add: saveWorkspace_storage parsed_or_def map_of_update_first)

lemma saveWorkspace_summaries: "summaryV2 (saveWorkspace ws now ls) = summaryV2 ls"
  by (auto simp: saveWorkspace_def loadWorkspaces_def Let_def split: prod.splits if_splits)

lemma saveWorkspace_refused: "quotaExceeded ls \<Longrightarrow> saveWorkspace ws now ls = ls"
  by (auto simp: saveWorkspace_def loadWorkspaces_def Let_def split: prod.splits if_splits)

lemma run_start_clears:
  "action \<noteq> ActSummarize \<Longrightarrow> cl_activeOption cl < length (resultSlots (panel w)) \<Longrightarrow>
   resultSlots (panel (run_start cl action started w))
   = (resultSlots (panel w))
       [cl_activeOption cl := \<lparr>slot_html = [], slot_text = [], slot_ts = started\<rparr>]"
  by (auto simp: run_start_def Let_def setHtmlOut_def setTextOut_def
      assignSlot_def slotAt_def slot_overwrite)

text \<open>
  Claim C6, as stated, says that after a failed generation call the result slots and
  the workspace record are exactly what they were before the run started. For reply,
  rewrite and tasks they are not. The run cleared the active slot before it made the
  call, and that change of \<open>resultSlots\<close> made the workspace effect arm its timer,
  which the failure does not clear: the result that was on show is gone from the
  slot, and 250 ms after the start of the run it is gone from the stored workspace
  as well.
\<close>

theorem failed_run_counterexample:
  "resultSlots (panel (world componentWithResult))
     = [\<lparr>slot_html = ''<p>old</p>'', slot_text = ''old'', slot_ts = 500\<rparr>, emptySlot, emptySlot]
   \<and> map_option ws_results
        (map_of (parsed_or [] (workspaceV1 (storage (world componentWithResult)))) ''T1::M1'')
     = Some (Some [\<lparr>ss_html = Some ''<p>old</p>'', ss_text = Some ''old'', ss_ts = Some 500\<rparr>,
                   \<lparr>ss_html = None, ss_text = None, ss_ts = None\<rparr>,
                   \<lparr>ss_html = None, ss_text = None, ss_ts = None\<rparr>])
   \<and> err (panel (world failedReply)) = ''boom''
   \<and> resultSlots (panel (world failedReply))
     = [\<lparr>slot_html = [], slot_text = [], slot_ts = 2000\<rparr>, emptySlot, emptySlot]
   \<and> map_option ws_results
        (map_of (parsed_or [] (workspaceV1 (storage (world failedReply)))) ''T1::M1'')
     = Some (Some [\<lparr>ss_html = None, ss_text = None, ss_ts = Some 2000\<rparr>,
                   \<lparr>ss_html = None, ss_text = None, ss_ts = None\<rparr>,
                   \<lparr>ss_html = None, ss_text = None, ss_ts = None\<rparr>])"
  by (simp add: persist_eval run_eval store_eval)


lemma saveTimerFires_idle: "saveTimer c = None \<Longrightarrow> saveTimerFires now c = c"
  by (simp add: saveTimerFires_def)

text \<open>
  Claim C6, amended. When the generation call fails, for every action the error
  message is surfaced and the busy flag is cleared; the run itself has written
  nothing to the local stores, no event has been dispatched, and the summaries are
  what they were, also after the timer of the workspace effect has fired (before or
  after the failure, to the same end). For summarize the result slots are what they
  were before the run, and the run has armed no timer, so the workspace record is
  not written on its account. For reply, rewrite and tasks the active result slot
  has been emptied at the start of the run (html and text empty, timestamp set to
  the start time) and the other slots are what they were; the workspace effect has
  armed its timer for these slots, and when it fires the workspace record of the
  email on show is replaced by one whose results are the former ones with the
  active slot emptied and whose legacy outputs are absent, unless the identity is
  empty or the store refuses the write, in which case the storage stays as it was.
\<close>

theorem failed_run:
  "(let c1 = runStarts cl action started c;
        c2 = runFails cl action msg finished c1;
        c3 = saveTimerFires fired c2;
        w = world c;
        a = cl_activeOption cl;
        cleared = (resultSlots (panel w))[a := \<lparr>slot_html = [], slot_text = [], slot_ts = started\<rparr>];
        saved = workspaceOfRender cl cleared fired (storage w)
    in err (panel (world c2)) = msg \<and> \<not> busy (panel (world c2))
     \<and> storage (world c2) = storage w \<and> events (world c3) = events w
     \<and> panel (world c3) = panel (world c2)
     \<and> summaryV2 (storage (world c3)) = summaryV2 (storage w)
     \<and> runFails cl action msg finished (saveTimerFires fired c1) = c3
     \<and> (action = ActSummarize \<longrightarrow>
          resultSlots (panel (world c2)) = resultSlots (panel w) \<and> saveTimer c2 = saveTimer c)
     \<and> (action \<noteq> ActSummarize \<and> a < length (resultSlots (panel w)) \<longrightarrow>
          resultSlots (panel (world c2)) = cleared
          \<and> saveTimer c2 = (if cl_emailKey cl = [] then None else Some (cl, cleared))
          \<and> (cl_emailKey cl = [] \<or> quotaExceeded (storage w) \<longrightarrow>
               storage (world c3) = storage w)
          \<and> (cl_emailKey cl \<noteq> [] \<and> \<not> quotaExceeded (storage w) \<longrightarrow>
               map_of (parsed_or [] (workspaceV1 (storage (world c3)))) (cl_emailKey cl) = Some saved
               \<and> ws_results saved
                   = Some ((map storedSlot (resultSlots (panel w)))
                             [a := \<lparr>ss_html = None, ss_text = None,
                                    ss_ts = (if started = 0 then None else Some started)\<rparr>])
               \<and> ws_htmlOut saved = None \<and> ws_textOut saved = None)))"
proof -
  let ?c1 = "runStarts cl action started c"
  let ?c2 = "runFails cl action msg finished ?c1"
  let ?c3 = "saveTimerFires fired ?c2"
  let ?w = "world c"
  let ?a = "cl_activeOption cl"
  let ?cleared = "(resultSlots (panel ?w))[?a := \<lparr>slot_html = [], slot_text = [], slot_ts = started\<rparr>]"
  let ?saved = "workspaceOfRender cl ?cleared fired (storage ?w)"
  have shown: "err (panel (world ?c2)) = msg" "\<not> busy (panel (world ?c2))"
    by (simp_all add: runFails_def runStarts_def run_finish_def Let_def)
  have st2: "storage (world ?c2) = storage ?w"
    by (simp add: runFails_def runStarts_def run_finish_def run_start_def Let_def)
  have ev: "events (world ?c3) = events ?w"
    by (simp add: saveTimerFires_def runFails_def runStarts_def run_finish_def run_start_def
        Let_def split: option.splits)
  have pn: "panel (world ?c3) = panel (world ?c2)"
    by (simp add: saveTimerFires_def split: option.splits)
  have su: "summaryV2 (storage (world ?c3)) = summaryV2 (storage ?w)"
    using st2 by (simp add: saveTimerFires_def saveWorkspace_summaries split: option.splits)
  have comm: "runFails cl action msg finished (saveTimerFires fired ?c1) = ?c3"
    by (simp add: saveTimerFires_def runFails_def run_finish_def split: option.splits)
  have summ: "resultSlots (panel (world ?c2)) = resultSlots (panel ?w) \<and> saveTimer ?c2 = saveTimer c"
    if "action = ActSummarize"
    using that by (simp add: runFails_def runStarts_def run_finish_def run_start_def Let_def)
  have other: "resultSlots (panel (world ?c2)) = ?cleared
          \<and> saveTimer ?c2 = (if cl_emailKey cl = [] then None else Some (cl, ?cleared))
          \<and> (cl_emailKey cl = [] \<or> quotaExceeded (storage ?w) \<longrightarrow>
               storage (world ?c3) = storage ?w)
          \<and> (cl_emailKey cl \<noteq> [] \<and> \<not> quotaExceeded (storage ?w) \<longrightarrow>
               map_of (parsed_or [] (workspaceV1 (storage (world ?c3)))) (cl_emailKey cl) = Some ?saved
               \<and> ws_results ?saved
                   = Some ((map storedSlot (resultSlots (panel ?w)))
                             [?a := \<lparr>ss_html = None, ss_text = None,
                                    ss_ts = (if started = 0 then None else Some started)\<rparr>])
               \<and> ws_htmlOut ?saved = None \<and> ws_textOut ?saved = None)"
    if act: "action \<noteq> ActSummarize" and len: "?a < length (resultSlots (panel ?w))"
  proof -
    have slots1: "resultSlots (panel (world ?c1)) = ?cleared"
      using run_start_clears [OF act len] by (simp add: runStarts_def Let_def)
    have slots2: "resultSlots (panel (world ?c2)) = ?cleared"
      using slots1 by (simp add: runFails_def run_finish_def)
    have timer: "saveTimer ?c2 = (if cl_emailKey cl = [] then None else Some (cl, ?cleared))"
      using act run_start_clears [OF act len]
      by (simp add: runFails_def runStarts_def persistEffect_def Let_def)
    have key: "ws_key ?saved = cl_emailKey cl" by (simp add: workspaceOfRender_def)
    have st3: "storage (world ?c3) = saveWorkspace ?saved fired (storage ?w)"
      if "cl_emailKey cl \<noteq> []"
      using that timer st2 by (simp add: saveTimerFires_def)
    have none: "storage (world ?c3) = storage ?w" if "cl_emailKey cl = []"
      using that timer st2 by (simp add: saveTimerFires_def)
    have refused: "storage (world ?c3) = storage ?w"
      if "cl_emailKey cl = [] \<or> quotaExceeded (storage ?w)"
      using that none st3 saveWorkspace_refused by (cases "cl_emailKey cl = []") auto
    have look: "map_of (parsed_or [] (workspaceV1 (storage (world ?c3)))) (cl_emailKey cl) = Some ?saved"
      if "cl_emailKey cl \<noteq> []" "\<not> quotaExceeded (storage ?w)"
      using saveWorkspace_lookup [OF that(2), of ?saved fired] st3 [OF that(1)] key by simp
    have res: "ws_results ?saved
                   = Some ((map storedSlot (resultSlots (panel ?w)))
                             [?a := \<lparr>ss_html = None, ss_text = None,
                                    ss_ts = (if started = 0 then None else Some started)\<rparr>])"
      by (simp add: workspaceOfRender_def map_update storedSlot_def orUndefined_def)
    have out: "ws_htmlOut ?saved = None" "ws_textOut ?saved = None"
      using len by (simp_all add: workspaceOfRender_def slotAt_def orUndefined_def)
    show ?thesis
      using slots2 timer refused look res out by blast
  qed
  show ?thesis
    unfolding Let_def using shown st2 ev pn su comm summ other by blast
qed

theorem failed_run_witness:
  "err (panel (world failedReply)) = ''boom'' \<and> \<not> busy (panel (world failedReply))
   \<and> summaryV2 (storage (world failedReply)) = summaryV2 (storage (world componentWithResult))
   \<and> resultSlots (panel (world failedReply))
       = [\<lparr>slot_html = [], slot_text = [], slot_ts = 2000\<rparr>, emptySlot, emptySlot]
   \<and> map_option ws_results
        (map_of (parsed_or [] (workspaceV1 (storage (world failedReply)))) ''T1::M1'')
       = Some (Some [\<lparr>ss_html = None, ss_text = None, ss_ts = Some 2000\<rparr>,
                     \<lparr>ss_html = None, ss_text = None, ss_ts = None\<rparr>,
                     \<lparr>ss_html = None, ss_text = None, ss_ts = None\<rparr>])
   \<and> err (panel (world failedSummarize)) = ''boom''
   \<and> resultSlots (panel (world failedSummarize)) = resultSlots (panel (world componentWithResult))
   \<and> storage (world failedSummarize) = storage (world componentWithResult)"
proof -
  have q: "\<not> quotaExceeded (storage (world componentWithResult))"
    and slots: "resultSlots (panel (world componentWithResult))
       = [\<lparr>slot_html = ''<p>old</p>'', slot_text = ''old'', slot_ts = 500\<rparr>, emptySlot, emptySlot]"
    and timer: "saveTimer componentWithResult = None"
    by (simp_all add: persist_eval run_eval store_eval)
  have cl: "cl_activeOption closureA = 0" "cl_emailKey closureA = ''T1::M1''"
    by (simp_all add: closureA_def)
  have reply: "err (panel (world failedReply)) = ''boom'' \<and> \<not> busy (panel (world failedReply))
   \<and> summaryV2 (storage (world failedReply)) = summaryV2 (storage (world componentWithResult))
   \<and> resultSlots (panel (world failedReply))
       = [\<lparr>slot_html = [], slot_text = [], slot_ts = 2000\<rparr>, emptySlot, emptySlot]
   \<and> map_option ws_results
        (map_of (parsed_or [] (workspaceV1 (storage (world failedReply)))) ''T1::M1'')
       = Some (Some [\<lparr>ss_html = None, ss_text = None, ss_ts = Some 2000\<rparr>,
                     \<lparr>ss_html = None, ss_text = None, ss_ts = None\<rparr>,
                     \<lparr>ss_html = None, ss_text = None, ss_ts = None\<rparr>])"
    using failed_run [where cl = closureA and action = ActReply and started = 2000
        and c = componentWithResult and msg = "''boom''" and finished = 2100 and fired = 2250]
      q slots cl
    by (simp add: Let_def failedReply_def storedSlot_def orUndefined_def emptySlot_def)
  have summ: "err (panel (world failedSummarize)) = ''boom''
   \<and> resultSlots (panel (world failedSummarize)) = resultSlots (panel (world componentWithResult))
   \<and> storage (world failedSummarize) = storage (world componentWithResult)"
    using failed_run [where cl = closureA and action = ActSummarize and started = 2000
        and c = componentWithResult and msg = "''boom''" and finished = 2100 and fired = 2250]
      timer
    by (simp add: Let_def failedSummarize_def saveTimerFires_idle)
  show ?thesis using reply summ by simp
qed

section \<open>Properties of the recipient rows\<close>

lemmas norm_eval = normalizeEmailCandidate_def string_eval Let_def

lemma row_email_resetRow [simp]: "row_email (resetRow r) = row_email r"
  by (simp add: resetRow_def)

lemma row_include_resetRow [simp]: "\<not> row_include (resetRow r)"
  by (simp add: resetRow_def)

lemma resetRow_idem [simp]: "resetRow (resetRow r) = resetRow r"
  by (simp add: resetRow_def)

lemma resetRow_marked [simp]:
  "resetRow (r\<lparr>row_include := b, row_role := c\<rparr>) = resetRow r"
  by (simp add: resetRow_def)

lemma list_ex_email_map:
  "(\<And>r. row_email (f r) = row_email r) \<Longrightarrow>
   list_ex (\<lambda>x. row_email x = e) (map f xs) = list_ex (\<lambda>x. row_email x = e) xs"
  by (induction xs) auto

lemma map_resetRow_updateFirst:
  "map resetRow (updateFirst p (\<lambda>rr. rr\<lparr>row_include := True, row_role := RoleTo\<rparr>) xs)
   = map resetRow xs"
  by (induction xs) auto

lemma map_resetRow_markSender:
  "map resetRow (markSender e n xs)
   = (if list_ex (\<lambda>x. row_email x = e) xs then map resetRow xs
      else resetRow (senderRow e n) # map resetRow xs)"
  by (simp add: markSender_def map_resetRow_updateFirst)

lemma map_resetRow_markHeaders: "map resetRow (markHeaders me e xs) = map resetRow xs"
  by (induction xs) (auto simp: markHeaders_def)

lemma markSender_reset_sender:
  "markSender e n (resetRow (senderRow e n) # ys) = senderRow e n # ys"
  by (simp add: markSender_def senderRow_def resetRow_def)

lemma markSender_again:
  "markSender e n (map resetRow (markSender e n (map resetRow xs))) = markSender e n (map resetRow xs)"
proof (cases "list_ex (\<lambda>x. row_email x = e) (map resetRow xs)")
  case True
  then show ?thesis by (simp add: map_resetRow_markSender o_def)
next
  case False
  then show ?thesis
    by (simp add: map_resetRow_markSender o_def markSender_reset_sender)
       (simp add: markSender_def)
qed

lemma applyPreset_Reply_again:
  "applyPreset (applyPreset rows Reply ctx me) Reply ctx me = applyPreset rows Reply ctx me"
  by (simp add: applyPreset_def Let_def markSender_again o_def)

lemma applyPreset_ReplyAll_then_Reply:
  "applyPreset (applyPreset rows ReplyAll ctx me) Reply ctx me = applyPreset rows Reply ctx me"
  by (simp add: applyPreset_def Let_def markSender_again map_resetRow_markHeaders o_def)

lemma updateFirst_set:
  "x \<in> set (updateFirst p f xs) \<Longrightarrow> x \<in> set xs \<or> (\<exists>y \<in> set xs. p y \<and> x = f y)"
  by (induction xs) (auto split: if_splits)

lemma updateFirst_hit:
  "list_ex p xs \<Longrightarrow> \<exists>y \<in> set xs. p y \<and> f y \<in> set (updateFirst p f xs)"
  by (induction xs) auto

lemma updateFirst_distinct_all:
  assumes "distinct (map k xs)" "\<And>y. k (f y) = k y" "x \<in> set (updateFirst (\<lambda>y. k y = e) f xs)" "k x = e"
  shows "\<exists>y \<in> set xs. x = f y"
  using assms
proof (induction xs)
  case Nil then show ?case by simp
next
  case (Cons a xs)
  show ?case
  proof (cases "k a = e")
    case True
    with Cons.prems show ?thesis by (auto simp: image_iff)
  next
    case False
    with Cons show ?thesis by auto
  qed
qed

lemma markSender_props:
  assumes "\<forall>r \<in> set xs. \<not> row_include r"
  shows "\<forall>r \<in> set (markSender e n xs). row_email r \<noteq> e \<longrightarrow> \<not> row_include r"
    and "\<exists>r \<in> set (markSender e n xs). row_email r = e \<and> row_include r \<and> row_role r = RoleTo"
    and "\<not> list_ex (\<lambda>x. row_email x = e) xs \<Longrightarrow> markSender e n xs = senderRow e n # xs"
    and "distinct (map row_email xs) \<Longrightarrow>
         \<forall>r \<in> set (markSender e n xs). row_email r = e \<longrightarrow> row_include r \<and> row_role r = RoleTo"
proof -
  show "\<forall>r \<in> set (markSender e n xs). row_email r \<noteq> e \<longrightarrow> \<not> row_include r"
    using assms by (auto simp: markSender_def senderRow_def dest!: updateFirst_set)
  show "\<exists>r \<in> set (markSender e n xs). row_email r = e \<and> row_include r \<and> row_role r = RoleTo"
  proof (cases "list_ex (\<lambda>x. row_email x = e) xs")
    case True
    from updateFirst_hit [OF True, of "\<lambda>rr. rr\<lparr>row_include := True, row_role := RoleTo\<rparr>"]
    obtain y where y: "row_email y = e"
      "y\<lparr>row_include := True, row_role := RoleTo\<rparr>
         \<in> set (updateFirst (\<lambda>x. row_email x = e)
                  (\<lambda>rr. rr\<lparr>row_include := True, row_role := RoleTo\<rparr>) xs)"
      by blast
    show ?thesis
      unfolding markSender_def using True
      by (simp only: if_True) (rule bexI [OF _ y(2)], simp add: y(1))
  next
    case False
    then show ?thesis by (simp add: markSender_def senderRow_def)
  qed
  show "\<not> list_ex (\<lambda>x. row_email x = e) xs \<Longrightarrow> markSender e n xs = senderRow e n # xs"
    by (simp add: markSender_def)
  show "\<forall>r \<in> set (markSender e n xs). row_email r = e \<longrightarrow> row_include r \<and> row_role r = RoleTo"
    if d: "distinct (map row_email xs)"
  proof (cases "list_ex (\<lambda>x. row_email x = e) xs")
    case True
    have "\<exists>y \<in> set xs. r = y\<lparr>row_include := True, row_role := RoleTo\<rparr>"
      if "r \<in> set (updateFirst (\<lambda>y. row_email y = e) (\<lambda>rr. rr\<lparr>row_include := True, row_role := RoleTo\<rparr>) xs)"
         "row_email r = e" for r
      using updateFirst_distinct_all [OF d _ that(1) that(2)] by simp
    then show ?thesis using True by (fastforce simp: markSender_def)
  next
    case False
    then show ?thesis by (auto simp: markSender_def senderRow_def list_ex_iff)
  qed
qed

text \<open>
  Claim C7, as stated, says that after \<open>replyAll\<close> followed by \<open>reply\<close> the sender's
  row has include=true and role=to, inserted if absent. When the sender is the local
  user (a message from the user's own address) no such row exists afterwards: the
  header rows leave the user out and the preset does not insert the user.
\<close>

theorem reply_preset_counterexample:
  "applyPreset (applyPreset (buildHeaderRows senderIsMe ''me@x.com'') ReplyAll senderIsMe ''me@x.com'')
     Reply senderIsMe ''me@x.com''
   = [\<lparr>row_email = ''ann@x.com'', row_name = Some ''Ann'', row_origins = [OriginTo],
       row_include = False, row_role = RoleCc\<rparr>]"
  by (simp add: applyPreset_def buildHeaderRows_def recipientEntries_def pushRow_def
      senderIsMe_def resetRow_def markHeaders_def norm_eval)

text \<open>
  Claim C7, amended. Applying \<open>reply\<close> twice yields the same rows as applying it
  once, and \<open>replyAll\<close> followed by \<open>reply\<close> yields the same rows as \<open>reply\<close>
  alone. In that result, when the sender's normalised address is not empty and is not
  the local user's address, every row with another address has include=false, a row
  with the sender's address has include=true and role=to (put in front of the reset rows
  if no row had that address; the only row with that address if the addresses of the
  rows were distinct); otherwise every row has include=false and no row is inserted.
\<close>

theorem reply_preset:
  "(let from' = normalizeEmailCandidate (str_or_empty (fromEmail ctx));
        once = applyPreset rows Reply ctx me
    in applyPreset once Reply ctx me = once
     \<and> applyPreset (applyPreset rows ReplyAll ctx me) Reply ctx me = once
     \<and> (from' \<noteq> [] \<and> (me = [] \<or> from' \<noteq> me) \<longrightarrow>
          (\<forall>r \<in> set once. row_email r \<noteq> from' \<longrightarrow> \<not> row_include r)
          \<and> (\<exists>r \<in> set once. row_email r = from' \<and> row_include r \<and> row_role r = RoleTo)
          \<and> (\<not> list_ex (\<lambda>r. row_email r = from') rows \<longrightarrow>
                once = senderRow from' (fromName ctx) # map resetRow rows)
          \<and> (distinct (map row_email rows) \<longrightarrow>
                (\<forall>r \<in> set once. row_email r = from' \<longrightarrow> row_include r \<and> row_role r = RoleTo)))
     \<and> (\<not> (from' \<noteq> [] \<and> (me = [] \<or> from' \<noteq> me)) \<longrightarrow>
          once = map resetRow rows \<and> (\<forall>r \<in> set once. \<not> row_include r)))"
proof -
  let ?f = "normalizeEmailCandidate (str_or_empty (fromEmail ctx))"
  let ?xs = "map resetRow rows"
  have off: "\<forall>r \<in> set ?xs. \<not> row_include r" by simp
  have ex: "list_ex (\<lambda>x. row_email x = ?f) ?xs \<longleftrightarrow> list_ex (\<lambda>x. row_email x = ?f) rows"
    by (rule list_ex_email_map) simp
  have d: "distinct (map row_email ?xs) \<longleftrightarrow> distinct (map row_email rows)"
    by (simp add: o_def)
  note m = markSender_props [OF off, of ?f "fromName ctx"]
  have on: "applyPreset rows Reply ctx me = markSender ?f (fromName ctx) ?xs"
    if "?f \<noteq> [] \<and> (me = [] \<or> ?f \<noteq> me)"
    using that by (simp add: applyPreset_def Let_def)
  have no: "applyPreset rows Reply ctx me = ?xs"
    if "\<not> (?f \<noteq> [] \<and> (me = [] \<or> ?f \<noteq> me))"
    using that by (auto simp: applyPreset_def Let_def)
  show ?thesis
    unfolding Let_def applyPreset_Reply_again applyPreset_ReplyAll_then_Reply
    using on no m ex d off by (auto simp del: set_map list.map)
qed


theorem reply_preset_witness:
  "(let rows = buildHeaderRows mailFromBob ''me@x.com'';
        once = applyPreset rows Reply mailFromBob ''me@x.com''
    in normalizeEmailCandidate (str_or_empty (fromEmail mailFromBob)) = ''bob@example.com''
     \<and> applyPreset once Reply mailFromBob ''me@x.com'' = once
     \<and> applyPreset (applyPreset rows ReplyAll mailFromBob ''me@x.com'') Reply mailFromBob ''me@x.com''
         = once
     \<and> (\<forall>r \<in> set once. row_email r \<noteq> ''bob@example.com'' \<longrightarrow> \<not> row_include r)
     \<and> (\<exists>r \<in> set once. row_email r = ''bob@example.com'' \<and> row_include r \<and> row_role r = RoleTo))"
proof -
  have f: "normalizeEmailCandidate (str_or_empty (fromEmail mailFromBob)) = ''bob@example.com''"
    by (simp add: mailFromBob_def norm_eval)
  show ?thesis
    using reply_preset [of mailFromBob "buildHeaderRows mailFromBob ''me@x.com''" "''me@x.com''"] f
    by (simp add: Let_def)
qed

lemma lowerChar_idem: "lowerChar (lowerChar c) = lowerChar c"
  by (auto simp: lowerChar_def Let_def)

lemma isWhiteSpace_lowerChar: "isWhiteSpace (lowerChar c) = isWhiteSpace c"
  by (auto simp: lowerChar_def isWhiteSpace_def Let_def)

lemma toLowerCase_idem: "toLowerCase (toLowerCase s) = toLowerCase s"
  by (simp add: toLowerCase_def lowerChar_idem)

lemma dropWhile_ws_lower:
  "dropWhile isWhiteSpace (map lowerChar xs) = map lowerChar (dropWhile isWhiteSpace xs)"
  by (induction xs) (auto simp: isWhiteSpace_lowerChar)

lemma trim_toLowerCase: "trim (toLowerCase s) = toLowerCase (trim s)"
  by (simp add: trim_def toLowerCase_def dropWhile_ws_lower rev_map)

lemma dropWhile_fixed: "xs = [] \<or> \<not> P (hd xs) \<Longrightarrow> dropWhile P xs = xs"
  by (cases xs) auto

lemma last_dropWhile_rev:
  assumes "dropWhile P (rev t) \<noteq> []"
  shows "last (dropWhile P (rev t)) = hd t"
proof -
  have "rev t = takeWhile P (rev t) @ dropWhile P (rev t)" by simp
  then have "last (rev t) = last (dropWhile P (rev t))"
    using assms by (metis last_appendR)
  moreover have "t \<noteq> []" using assms by auto
  ultimately show ?thesis by (simp add: last_rev)
qed

lemma trim_idem: "trim (trim s) = trim s"
proof -
  let ?t = "dropWhile isWhiteSpace s"
  let ?u = "dropWhile isWhiteSpace (rev ?t)"
  have front: "dropWhile isWhiteSpace (rev ?u) = rev ?u"
  proof (rule dropWhile_fixed, cases "?u = []")
    case True then show "rev ?u = [] \<or> \<not> isWhiteSpace (hd (rev ?u))" by simp
  next
    case False
    have "?t \<noteq> []"
    proof
      assume "?t = []"
      then have "?u = []" by (simp only: rev.simps dropWhile.simps)
      with False show False by simp
    qed
    then have "\<not> isWhiteSpace (hd ?t)" by (rule hd_dropWhile)
    moreover have "hd (rev ?u) = hd ?t"
      using False last_dropWhile_rev [OF False] by (simp add: hd_rev)
    ultimately show "rev ?u = [] \<or> \<not> isWhiteSpace (hd (rev ?u))" by simp
  qed
  show ?thesis
    unfolding trim_def front by simp
qed

lemma normalizedAddress_lower_trim: "normalizedAddress (toLowerCase (trim s))"
  by (simp add: normalizedAddress_def trim_toLowerCase trim_idem toLowerCase_idem)

lemma normalizedAddress_candidate: "normalizedAddress (normalizeEmailCandidate raw)"
proof -
  have "normalizedAddress []" by (simp add: normalizedAddress_def trim_def toLowerCase_def)
  then show ?thesis
    by (simp add: normalizeEmailCandidate_def Let_def normalizedAddress_lower_trim)
qed

lemma cleanLoop_normalized: "e \<in> set (cleanLoop seen xs) \<Longrightarrow> normalizedAddress e"
  by (induction xs arbitrary: seen)
     (auto simp: Let_def normalizedAddress_candidate split: if_splits)

lemma rowsOk_emails:
  "rowsOk rows \<longleftrightarrow> distinct (map row_email rows) \<and> (\<forall>e \<in> set (map row_email rows). normalizedAddress e)"
  by (auto simp: rowsOk_def list_all_iff)

lemma emails_updateFirst:
  "(\<And>r. row_email (f r) = row_email r) \<Longrightarrow> map row_email (updateFirst p f rows) = map row_email rows"
  by (induction rows) auto

lemma emails_map:
  "(\<And>r. row_email (f r) = row_email r) \<Longrightarrow> map row_email (map f rows) = map row_email rows"
  by (induction rows) auto

lemma rowsOk_updateFirst:
  "(\<And>r. row_email (f r) = row_email r) \<Longrightarrow> rowsOk rows \<Longrightarrow> rowsOk (updateFirst p f rows)"
  by (simp add: rowsOk_emails emails_updateFirst)

lemma rowsOk_map:
  assumes "\<And>r. row_email (f r) = row_email r" "rowsOk rows"
  shows "rowsOk (map f rows)"
proof -
  have e: "map row_email (map f rows) = map row_email rows" by (rule emails_map) (rule assms(1))
  show ?thesis using assms(2) unfolding rowsOk_emails e .
qed

lemma rowsOk_snoc:
  "rowsOk rows \<Longrightarrow> normalizedAddress (row_email r) \<Longrightarrow>
   \<not> list_ex (\<lambda>x. row_email x = row_email r) rows \<Longrightarrow> rowsOk (rows @ [r])"
  by (auto simp: rowsOk_def list_ex_iff)

lemma rowsOk_cons:
  "rowsOk rows \<Longrightarrow> normalizedAddress (row_email r) \<Longrightarrow>
   \<not> list_ex (\<lambda>x. row_email x = row_email r) rows \<Longrightarrow> rowsOk (r # rows)"
  by (auto simp: rowsOk_def list_ex_iff)

lemma rowsOk_pushRow: "rowsOk rows \<Longrightarrow> rowsOk (pushRow me entry rows)"
  by (cases entry)
     (auto simp: pushRow_def Let_def normalizedAddress_candidate
        intro!: rowsOk_updateFirst rowsOk_snoc)

lemma rowsOk_fold_pushRow: "rowsOk rows \<Longrightarrow> rowsOk (fold (pushRow me) entries rows)"
  by (induction entries arbitrary: rows) (auto simp: rowsOk_pushRow)

lemma rowsOk_buildHeaderRows: "rowsOk (buildHeaderRows ctx me)"
  unfolding buildHeaderRows_def
  by (rule rowsOk_fold_pushRow) (simp add: rowsOk_def)

lemma rowsOk_applyPreset: "rowsOk rows \<Longrightarrow> rowsOk (applyPreset rows preset ctx me)"
proof -
  assume ok: "rowsOk rows"
  let ?f = "normalizeEmailCandidate (str_or_empty (fromEmail ctx))"
  have r1: "rowsOk (map resetRow rows)" using ok by (rule rowsOk_map [rotated]) simp
  have r2: "rowsOk (markSender ?f (fromName ctx) (map resetRow rows))"
    unfolding markSender_def
    using r1 by (auto simp: senderRow_def normalizedAddress_candidate
                   intro!: rowsOk_updateFirst rowsOk_cons)
  have mh: "rowsOk (markHeaders me ?f xs)" if "rowsOk xs" for xs
    unfolding markHeaders_def using that by (rule rowsOk_map [rotated]) simp
  show ?thesis
    using r1 r2 mh by (simp add: applyPreset_def Let_def)
qed

lemma rowsOk_harvestOne:
  "rowsOk rows \<Longrightarrow> normalizedAddress e \<Longrightarrow> rowsOk (harvestOne me e rows)"
  by (auto simp: harvestOne_def intro!: rowsOk_updateFirst rowsOk_snoc)

lemma rowsOk_fold_harvest:
  "rowsOk rows \<Longrightarrow> \<forall>e \<in> set found. normalizedAddress e \<Longrightarrow> rowsOk (fold (harvestOne me) found rows)"
  by (induction found arbitrary: rows) (auto simp: rowsOk_harvestOne)

lemma rowsOk_bodyScan: "rowsOk rows \<Longrightarrow> rowsOk (bodyScan inc me out rows)"
  by (auto simp: bodyScan_def Let_def cleanCandidates_def
      intro!: rowsOk_fold_harvest dest: cleanLoop_normalized)

lemma rowsOk_addManualRecipient: "rowsOk rows \<Longrightarrow> rowsOk (addManualRecipient addEmail addRole rows)"
  by (auto simp: addManualRecipient_def Let_def normalizedAddress_candidate
      intro!: rowsOk_updateFirst rowsOk_snoc)

lemma rowsOk_applyRowOp: "rowsOk rows \<Longrightarrow> rowsOk (applyRowOp ctx me rows op)"
  by (cases op)
     (auto simp: rowsOk_bodyScan rowsOk_addManualRecipient rowsOk_applyPreset
        onToggleInclude_def onChangeRole_def intro!: rowsOk_map)

lemma rowsOk_foldl: "rowsOk rows \<Longrightarrow> rowsOk (foldl (applyRowOp ctx me) rows ops)"
  by (induction ops arbitrary: rows) (auto simp: rowsOk_applyRowOp)

lemma originsGrow_iff:
  "originsGrow a b \<longleftrightarrow>
   (\<forall>r \<in> set a. \<exists>r' \<in> set b. row_email r' = row_email r \<and> set (row_origins r) \<subseteq> set (row_origins r'))"
  by (simp add: originsGrow_def list_all_iff list_ex_iff)

lemma originsGrow_refl: "originsGrow a a"
  by (auto simp: originsGrow_iff)

lemma originsGrow_trans:
  assumes "originsGrow a b" "originsGrow b c"
  shows "originsGrow a c"
  unfolding originsGrow_iff
proof
  fix r assume "r \<in> set a"
  with assms(1) obtain r' where r': "r' \<in> set b" "row_email r' = row_email r"
    "set (row_origins r) \<subseteq> set (row_origins r')"
    unfolding originsGrow_iff by blast
  with assms(2) obtain r'' where r'': "r'' \<in> set c" "row_email r'' = row_email r'"
    "set (row_origins r') \<subseteq> set (row_origins r'')"
    unfolding originsGrow_iff by blast
  from r' r'' show "\<exists>x \<in> set c. row_email x = row_email r \<and> set (row_origins r) \<subseteq> set (row_origins x)"
    by (intro bexI [of _ r'']) auto
qed

lemma originsGrow_map:
  "(\<And>r. row_email (f r) = row_email r \<and> set (row_origins r) \<subseteq> set (row_origins (f r)))
   \<Longrightarrow> originsGrow rows (map f rows)"
  unfolding originsGrow_iff by auto

lemma originsGrow_updateFirst:
  assumes "\<And>r. row_email (f r) = row_email r \<and> set (row_origins r) \<subseteq> set (row_origins (f r))"
  shows "originsGrow rows (updateFirst p f rows)"
proof (induction rows)
  case Nil show ?case by (simp add: originsGrow_iff)
next
  case (Cons a rows)
  show ?case
  proof (cases "p a")
    case True
    then show ?thesis using assms [of a] unfolding originsGrow_iff by auto
  next
    case False
    then show ?thesis using Cons unfolding originsGrow_iff by auto
  qed
qed

lemma originsGrow_snoc: "originsGrow rows (rows @ xs)"
  by (auto simp: originsGrow_iff)

lemma originsGrow_cons: "originsGrow rows (x # rows)"
  by (auto simp: originsGrow_iff)

lemma set_mergeOrigins: "set (mergeOrigins a b) = set a \<union> set b"
  by (auto simp: mergeOrigins_def)

lemma originsGrow_pushRow: "originsGrow rows (pushRow me entry rows)"
  by (cases entry)
     (auto simp: pushRow_def Let_def set_mergeOrigins originsGrow_refl originsGrow_snoc
        intro!: originsGrow_updateFirst)

lemma originsGrow_harvestOne: "originsGrow rows (harvestOne me e rows)"
  by (auto simp: harvestOne_def set_mergeOrigins originsGrow_refl originsGrow_snoc
      intro!: originsGrow_updateFirst)

lemma originsGrow_fold_harvest: "originsGrow rows (fold (harvestOne me) found rows)"
proof (induction found arbitrary: rows)
  case Nil show ?case by (simp add: originsGrow_refl)
next
  case (Cons e found)
  show ?case
    using originsGrow_trans [OF originsGrow_harvestOne Cons] by simp
qed

lemma originsGrow_bodyScan: "originsGrow rows (bodyScan inc me out rows)"
  by (simp add: bodyScan_def Let_def originsGrow_refl originsGrow_fold_harvest)

lemma originsGrow_addManualRecipient: "originsGrow rows (addManualRecipient addEmail addRole rows)"
  by (auto simp: addManualRecipient_def Let_def set_mergeOrigins originsGrow_refl originsGrow_snoc
      intro!: originsGrow_updateFirst)

lemma originsGrow_applyPreset: "originsGrow rows (applyPreset rows preset ctx me)"
proof -
  let ?f = "normalizeEmailCandidate (str_or_empty (fromEmail ctx))"
  have r1: "originsGrow rows (map resetRow rows)"
    by (rule originsGrow_map) (simp add: resetRow_def)
  have r2: "originsGrow xs (markSender ?f (fromName ctx) xs)" for xs
    by (auto simp: markSender_def originsGrow_cons intro!: originsGrow_updateFirst)
  have r3: "originsGrow xs (markHeaders me ?f xs)" for xs
    unfolding markHeaders_def by (rule originsGrow_map) simp
  let ?rows2 = "if (preset = Reply \<or> preset = ReplyAll)
                    \<and> ?f \<noteq> [] \<and> (me = [] \<or> ?f \<noteq> me)
                 then markSender ?f (fromName ctx) (map resetRow rows)
                 else map resetRow rows"
  have a: "originsGrow rows ?rows2"
    using r1 originsGrow_trans [OF r1 r2] by presburger
  have b: "originsGrow rows (markHeaders me ?f ?rows2)"
    by (rule originsGrow_trans [OF a r3])
  have "applyPreset rows preset ctx me
        = (if preset = ReplyAll then markHeaders me ?f ?rows2 else ?rows2)"
    by (simp add: applyPreset_def Let_def)
  then show ?thesis using a b by presburger
qed

lemma originsGrow_applyRowOp: "originsGrow rows (applyRowOp ctx me rows op)"
  by (cases op)
     (auto simp: originsGrow_bodyScan originsGrow_addManualRecipient originsGrow_applyPreset
        onToggleInclude_def onChangeRole_def intro!: originsGrow_map)

text \<open>
  Claim C8. At all times the recipient rows of the shown email hold exactly one row
  per normalised (trimmed, lower-cased) address: the rows start as the header rows with
  the reply preset applied, every later change is a body scan, a manual addition, a
  preset application or an include or role toggle, and after any sequence of these the
  addresses of the rows are normalised and pairwise distinct. Each of these
  operations, and each step of the header build, only grows the origins of a row:
  every row that was there is still there under its address with at least the
  origins it had.
\<close>

theorem rows_invariant:
  "rowsOk (foldl (applyRowOp ctx me) (initialRows ctx me) ops)
   \<and> distinct (map (\<lambda>r. toLowerCase (trim (row_email r)))
                 (foldl (applyRowOp ctx me) (initialRows ctx me) ops))
   \<and> originsGrow rows (applyRowOp ctx me rows op)
   \<and> originsGrow rows (pushRow me entry rows)"
proof -
  let ?now = "foldl (applyRowOp ctx me) (initialRows ctx me) ops"
  have ok: "rowsOk ?now"
    unfolding initialRows_def
    by (intro rowsOk_foldl rowsOk_applyPreset rowsOk_buildHeaderRows)
  have eq: "map (\<lambda>r. toLowerCase (trim (row_email r))) ?now = map row_email ?now"
    using ok by (auto simp: rowsOk_def list_all_iff normalizedAddress_def)
  have "distinct (map (\<lambda>r. toLowerCase (trim (row_email r))) ?now)"
    unfolding eq using ok by (simp add: rowsOk_def)
  with ok show ?thesis
    using originsGrow_applyRowOp originsGrow_pushRow by blast
qed


lemmas rows_eval = initialRows_def buildHeaderRows_def recipientEntries_def pushRow_def
  applyPreset_def resetRow_def markSender_def senderRow_def markHeaders_def isHeader_def
  bodyScan_def cleanCandidates_def harvestOne_def addManualRecipient_def onToggleInclude_def
  onChangeRole_def mergeOrigins_def truthy_def mailFromBob_def norm_eval

theorem rows_invariant_witness:
  "(let rows = foldl (applyRowOp mailFromBob ''me@x.com'') (initialRows mailFromBob ''me@x.com'')
                 [OpBodyScan True [''ann@X.com'', ''zed@y.org.'', ''me@x.com''],
                  OpAddManual '' Ann@x.com; '' RoleBcc]
    in map row_email rows = [''bob@example.com'', ''ann@x.com'', ''carl@y.org'', ''zed@y.org'']
     \<and> map row_origins rows
         = [[OriginFrom], [OriginTo, OriginBody, OriginManual], [OriginCc], [OriginBody]]
     \<and> rowsOk rows
     \<and> originsGrow rows (applyRowOp mailFromBob ''me@x.com'' rows (OpApplyPreset ReplyAll)))"
proof -
  have ev: "map (\<lambda>r. (row_email r, row_origins r))
        (foldl (applyRowOp mailFromBob ''me@x.com'') (initialRows mailFromBob ''me@x.com'')
                 [OpBodyScan True [''ann@X.com'', ''zed@y.org.'', ''me@x.com''],
                  OpAddManual '' Ann@x.com; '' RoleBcc])
      = [(''bob@example.com'', [OriginFrom]), (''ann@x.com'', [OriginTo, OriginBody, OriginManual]),
         (''carl@y.org'', [OriginCc]), (''zed@y.org'', [OriginBody])]"
    by (simp add: rows_eval)
  have e1: "map row_email xs = map fst (map (\<lambda>r. (row_email r, row_origins r)) xs)"
    and e2: "map row_origins xs = map snd (map (\<lambda>r. (row_email r, row_origins r)) xs)"
    for xs :: "RecipientRow list"
    by (simp_all add: o_def)
  show ?thesis
    unfolding Let_def e1 e2 ev
    using rows_invariant [of mailFromBob "''me@x.com''"
        "[OpBodyScan True [''ann@X.com'', ''zed@y.org.'', ''me@x.com''],
          OpAddManual '' Ann@x.com; '' RoleBcc]"
        "foldl (applyRowOp mailFromBob ''me@x.com'') (initialRows mailFromBob ''me@x.com'')
                 [OpBodyScan True [''ann@X.com'', ''zed@y.org.'', ''me@x.com''],
                  OpAddManual '' Ann@x.com; '' RoleBcc]"
        "OpApplyPreset ReplyAll"]
    by simp
qed

section \<open>Properties of the replaceable block\<close>















lemma divOpen_shape:
  "''<div data-icc-ai='' @ [CHR 0x22] @ ''1'' @ [CHR 0x22] @ ''>''
   = CHR ''<'' # (''div data-icc-ai='' @ [CHR 0x22] @ ''1'' @ [CHR 0x22] @ ''>'')"
  by simp









section \<open>Properties of the automatic summary\<close>

lemma autoSummary_guards:
  assumes "autoSummaryStarts conv key rawBody body' now ls a"
  shows "fst (loadSummary key now ls) = []"
    and "trim (if rawBody \<noteq> [] then rawBody else body') \<noteq> []"
    and "\<not> inflight (entryOf a key)"
    and "lastAttempt (entryOf a key) = Some t \<Longrightarrow> t \<noteq> 0 \<Longrightarrow> 30000 \<le> now - t"
  using assms by (auto simp: autoSummaryStarts_def split: option.splits)

lemma autoSummary_attempt_logged:
  "attempts (autoSummaryEffect conv key rawBody body' now ls a)
   = (if autoSummaryStarts conv key rawBody body' now ls (autoSummaryCleanup a)
      then attempts a @ [(key, now)] else attempts a)"
  by (simp add: autoSummaryEffect_def autoSummaryCleanup_def setInflight_def Let_def
      split: option.splits)

lemmas auto_eval = autoTraceSecondRun_def autoTraceBodyLoaded_def autoTraceBack_def
  autoTraceAway_def autoTraceAwaiting_def
  autoSummaryEffect_def autoSummaryStarts_def autoSummaryCleanup_def autoSummaryTimerFires_def
  autoSummaryInit_def setInflight_def entryOf_def loadSummary_def emptyStorage_def parsed_or_def
  str_or_empty_def trim_def isWhiteSpace_def Let_def

text \<open>
  Claim C5 asks that the automatic summary starts only when no unexpired summary is
  cached and the body text is not empty, that two attempts for one identity are never
  started less than 30 seconds apart, and that a second attempt is never started while
  one is in flight for that identity. The guards of the effect give the first two
  (\<open>autoSummary_guards\<close>). The third fails on the trace below: the cleanup function of
  the effect clears the in-flight flag of \<open>T1::M1\<close> when the user leaves that email,
  although the timer has fired already and its summarize run is still awaited; back on
  \<open>T1::M1\<close> more than 30 seconds after the first attempt, a second attempt starts
  and its run is awaited next to the first.
\<close>

theorem auto_summary_overlap:
  "awaitingRun autoTraceAwaiting = [''T1::M1'']
   \<and> inflight (entryOf autoTraceAwaiting ''T1::M1'')
   \<and> awaitingRun autoTraceAway = [''T1::M1'']
   \<and> \<not> inflight (entryOf autoTraceAway ''T1::M1'')
   \<and> armedTimer autoTraceAway = None
   \<and> attempts autoTraceBack = [(''T1::M1'', 1000), (''T1::M2'', 5000)]
   \<and> attempts autoTraceBodyLoaded
       = [(''T1::M1'', 1000), (''T1::M2'', 5000), (''T1::M1'', 40200)]
   \<and> awaitingRun autoTraceBodyLoaded = [''T1::M1'']
   \<and> awaitingRun autoTraceSecondRun = [''T1::M1'', ''T1::M1'']"
  by (simp add: auto_eval)

end
